theory Spec2Isabelle
  imports Complex_Main "HOL-Library.Code_Target_Numeral"
begin

unbundle bit_operations_syntax

section \<open>Library functions the login automation relies on\<close>

text \<open>
  Strings are \<^typ>\<open>string\<close>, the bytes of the UTF-8 encoding, which is what SHA-1
  digests; for ASCII text a byte is a character of the JavaScript string. Splitting at
  an ASCII separator, searching for an ASCII substring and comparing are the same on
  the bytes as on the characters.
\<close>

subsection \<open>SHA-1 (\<open>crypto.createHash('sha1').update(s).digest('hex')\<close>)\<close>

text \<open>
  FIPS 180-4, on 32-bit words held as naturals with the wrap-around written out.
  The message schedule is kept newest word first, so that the four taps of the
  recurrence sit at fixed offsets.
\<close>

type_synonym u32 = nat

definition rotl :: "nat \<Rightarrow> u32 \<Rightarrow> u32" where
  "rotl n x = (x * 2 ^ n) mod 4294967296 + x div 2 ^ (32 - n)"

definition add32 :: "u32 \<Rightarrow> u32 \<Rightarrow> u32" where
  "add32 x y = (x + y) mod 4294967296"

definition not32 :: "u32 \<Rightarrow> u32" where
  "not32 x = 4294967295 - x"

definition be_bytes64 :: "nat \<Rightarrow> nat list" where
  "be_bytes64 n =
     [n div 72057594037927936 mod 256, n div 281474976710656 mod 256,
      n div 1099511627776 mod 256, n div 4294967296 mod 256,
      n div 16777216 mod 256, n div 65536 mod 256, n div 256 mod 256, n mod 256]"

definition sha1_pad :: "nat list \<Rightarrow> nat list" where
  "sha1_pad bs =
     bs @ [128] @ replicate ((119 - length bs mod 64) mod 64) 0 @ be_bytes64 (8 * length bs)"

fun words_of :: "nat list \<Rightarrow> u32 list" where
  "words_of (a # b # c # d # rest) = (((a * 256 + b) * 256 + c) * 256 + d) # words_of rest"
| "words_of _ = []"

fun chunks :: "u32 list \<Rightarrow> u32 list list" where
  "chunks [] = []"
| "chunks ws = take 16 ws # chunks (drop 16 ws)"

fun schedule :: "nat \<Rightarrow> u32 list \<Rightarrow> u32 list" where
  "schedule 0 rw = rw"
| "schedule (Suc n) rw =
     schedule n (rotl 1 (rw ! 2 XOR rw ! 7 XOR rw ! 13 XOR rw ! 15) # rw)"

type_synonym sha_state = "u32 \<times> u32 \<times> u32 \<times> u32 \<times> u32"

definition f_ch :: "u32 \<Rightarrow> u32 \<Rightarrow> u32 \<Rightarrow> u32" where
  "f_ch b c d = (b AND c) OR (not32 b AND d)"

definition f_parity :: "u32 \<Rightarrow> u32 \<Rightarrow> u32 \<Rightarrow> u32" where
  "f_parity b c d = b XOR c XOR d"

definition f_maj :: "u32 \<Rightarrow> u32 \<Rightarrow> u32 \<Rightarrow> u32" where
  "f_maj b c d = (b AND c) OR (b AND d) OR (c AND d)"

fun rounds :: "(u32 \<Rightarrow> u32 \<Rightarrow> u32 \<Rightarrow> u32) \<Rightarrow> u32 \<Rightarrow> u32 list \<Rightarrow> sha_state \<Rightarrow> sha_state" where
  "rounds f k [] s = s"
| "rounds f k (w # ws) (a, b, c, d, e) =
     rounds f k ws ((rotl 5 a + f b c d + e + k + w) mod 4294967296, a, rotl 30 b, c, d)"

definition add_state :: "sha_state \<Rightarrow> sha_state \<Rightarrow> sha_state" where
  "add_state h s = (case h of (h0, h1, h2, h3, h4) \<Rightarrow>
     (case s of (a, b, c, d, e) \<Rightarrow>
        (add32 h0 a, add32 h1 b, add32 h2 c, add32 h3 d, add32 h4 e)))"

definition compress :: "sha_state \<Rightarrow> u32 list \<Rightarrow> sha_state" where
  "compress h chunk = (let w = rev (schedule 64 (rev chunk)) in
     add_state h
      (rounds f_parity 0xCA62C1D6 (drop 60 w)
        (rounds f_maj 0x8F1BBCDC (take 20 (drop 40 w))
          (rounds f_parity 0x6ED9EBA1 (take 20 (drop 20 w))
            (rounds f_ch 0x5A827999 (take 20 w) h)))))"

definition sha1_init :: sha_state where
  "sha1_init = (0x67452301, 0xEFCDAB89, 0x98BADCFE, 0x10325476, 0xC3D2E1F0)"

definition hex_digit :: "nat \<Rightarrow> char" where
  "hex_digit n = ''0123456789abcdef'' ! (n mod 16)"

definition hex32 :: "u32 \<Rightarrow> string" where
  "hex32 w =
     [hex_digit (w div 268435456), hex_digit (w div 16777216), hex_digit (w div 1048576),
      hex_digit (w div 65536), hex_digit (w div 4096), hex_digit (w div 256),
      hex_digit (w div 16), hex_digit w]"

definition sha1_hex :: "string \<Rightarrow> string" where
  "sha1_hex s =
     (case foldl compress sha1_init (chunks (words_of (sha1_pad (map of_char s)))) of
        (h0, h1, h2, h3, h4) \<Rightarrow> hex32 h0 @ hex32 h1 @ hex32 h2 @ hex32 h3 @ hex32 h4)"

subsection \<open>Numbers of JavaScript\<close>

text \<open>
  A Number is a double. \<open>parseInt\<close> yields \<open>NaN\<close>, an infinity, or a double that
  holds an integer; the last is \<open>Num n\<close> with \<open>n\<close> the integer it holds, so that
  \<open>roundToDouble n = n\<close>. Every integer up to 2^53 in absolute value is a double;
  beyond, the doubles are the 53-bit multiples of a power of two.
\<close>

datatype number = NaN | PosInfinity | NegInfinity | Num int

function bitLength :: "int \<Rightarrow> nat" where
  "bitLength a = (if a \<le> 0 then 0 else Suc (bitLength (a div 2)))"
  by pat_completeness auto
termination
  by (relation "measure nat") auto

declare bitLength.simps [simp del]

text \<open>The double nearest to an integer, a tie going to the even significand.\<close>

definition roundToDouble :: "int \<Rightarrow> int" where
  "roundToDouble v =
     (let a = \<bar>v\<bar>; e = bitLength a - 53
      in if e = 0 then v
         else
           (let q = a div 2 ^ e; r = a mod 2 ^ e; half = 2 ^ (e - 1)
            in sgn v * ((if half < r \<or> (r = half \<and> odd q) then q + 1 else q) * 2 ^ e)))"

text \<open>The value of \<open>x\<close> after \<open>x++\<close>: \<open>x + 1\<close> as a double.\<close>

definition jsIncrement :: "number \<Rightarrow> number" where
  "jsIncrement x = (case x of Num n \<Rightarrow> Num (roundToDouble (n + 1)) | _ \<Rightarrow> x)"

definition digitChar :: "nat \<Rightarrow> char" where
  "digitChar d = ''0123456789abcdefghijklmnopqrstuvwxyz'' ! (d mod 36)"

text \<open>\<open>n.toString(radix)\<close> for an integer \<open>n\<close> from 0 to 2^53.\<close>

function natToString :: "nat \<Rightarrow> nat \<Rightarrow> string" where
  "natToString radix n =
     (if n < radix \<or> radix < 2 then [digitChar n]
      else natToString radix (n div radix) @ [digitChar (n mod radix)])"
  by pat_completeness auto
termination
  by (relation "measure snd") auto

declare natToString.simps [simp del]

definition decimal :: "int \<Rightarrow> string" where
  "decimal n = (if n < 0 then CHR ''-'' # natToString 10 (nat (- n)) else natToString 10 (nat n))"

text \<open>
  \<open>x.toString()\<close>. Up to 2^53 an integer prints as its decimal digits. A larger
  double \<open>a\<close> prints the shortest digits \<open>s\<close> (\<open>k\<close> of them) with an exponent
  \<open>n\<close> such that \<open>s * 10 ^ (n - k)\<close> is read back as \<open>a\<close>, the nearest to \<open>a\<close> where
  several do: followed by zeros while \<open>n\<close> is at most 21, in exponent form beyond.
\<close>

definition digitCandidates :: "int \<Rightarrow> nat \<Rightarrow> nat \<Rightarrow> (int \<times> nat) list" where
  "digitCandidates a d k =
     filter (\<lambda>(s, n). 10 ^ (k - 1) \<le> s \<and> s < 10 ^ k \<and> roundToDouble (s * 10 ^ (n - k)) = a)
       (concat (map (\<lambda>n. [(a div 10 ^ (n - k), n), (a div 10 ^ (n - k) + 1, n)]) [d, Suc d]))"

fun closest :: "int \<Rightarrow> nat \<Rightarrow> (int \<times> nat) list \<Rightarrow> (int \<times> nat) option" where
  "closest a k [] = None"
| "closest a k ((s, n) # cs) =
     (case closest a k cs of
        None \<Rightarrow> Some (s, n)
      | Some (s', n') \<Rightarrow>
          (let dist = \<bar>s * 10 ^ (n - k) - a\<bar>; dist' = \<bar>s' * 10 ^ (n' - k) - a\<bar>
           in if dist < dist' \<or> (dist = dist' \<and> even s) then Some (s, n) else Some (s', n')))"

fun shortestDigits :: "int \<Rightarrow> nat \<Rightarrow> nat \<Rightarrow> nat \<Rightarrow> int \<times> nat \<times> nat" where
  "shortestDigits a d k 0 = (a, d, d)"
| "shortestDigits a d k (Suc fuel) =
     (case closest a k (digitCandidates a d k) of
        Some (s, n) \<Rightarrow> (s, n, k)
      | None \<Rightarrow> shortestDigits a d (Suc k) fuel)"

definition largeToString :: "int \<Rightarrow> string" where
  "largeToString a =
     (let d = length (natToString 10 (nat a))
      in case shortestDigits a d 1 d of (s, n, k) \<Rightarrow>
           (let digits = natToString 10 (nat s)
            in if n \<le> 21 then digits @ replicate (n - k) CHR ''0''
               else (if k = 1 then digits else hd digits # CHR ''.'' # tl digits)
                    @ ''e+'' @ natToString 10 (n - 1)))"

definition toString :: "number \<Rightarrow> string" where
  "toString x =
     (case x of
        NaN \<Rightarrow> ''NaN''
      | PosInfinity \<Rightarrow> ''Infinity''
      | NegInfinity \<Rightarrow> ''-Infinity''
      | Num v \<Rightarrow>
          if \<bar>v\<bar> \<le> 9007199254740992 then decimal v
          else if v < 0 then CHR ''-'' # largeToString (- v) else largeToString v)"

text \<open>The remainder operator \<open>%\<close> takes the sign of the dividend.\<close>

definition js_rem :: "int \<Rightarrow> int \<Rightarrow> int" where
  "js_rem a b = sgn a * (\<bar>a\<bar> mod \<bar>b\<bar>)"

text \<open>\<open>x >>> 0\<close>: the Number read as an unsigned 32-bit value, 0 for what is no integer.\<close>

definition toUint32 :: "number \<Rightarrow> nat" where
  "toUint32 x = (case x of Num v \<Rightarrow> nat (v mod 4294967296) | _ \<Rightarrow> 0)"

subsection \<open>Strings of JavaScript\<close>

text \<open>
  \<open>c.toUpperCase()\<close> and \<open>c.toLowerCase()\<close> for an ASCII character \<open>c\<close>. For other
  characters the case mapping is that of Unicode, which can also change the length;
  what is proved of the case conversion is proved of ASCII text.
\<close>

definition isAscii :: "string \<Rightarrow> bool" where
  "isAscii s = list_all (\<lambda>c. (of_char c :: nat) < 128) s"

definition toUpperCase :: "char \<Rightarrow> char" where
  "toUpperCase c = (let n = (of_char c :: nat) in if 97 \<le> n \<and> n \<le> 122 then char_of (n - 32) else c)"

definition toLowerCase :: "char \<Rightarrow> char" where
  "toLowerCase c = (let n = (of_char c :: nat) in if 65 \<le> n \<and> n \<le> 90 then char_of (n + 32) else c)"

definition startsWith :: "string \<Rightarrow> string \<Rightarrow> bool" where
  "startsWith s p = (take (length p) s = p)"

fun str_includes :: "string \<Rightarrow> string \<Rightarrow> bool" where
  "str_includes [] p = (p = [])"
| "str_includes (c # cs) p = (startsWith (c # cs) p \<or> str_includes cs p)"

text \<open>
  A value that \<open>JSON.parse\<close> yields, and \<open>v.includes(x)\<close> for a string \<open>x\<close>: the
  substring test on a string, the element test on an array, and a \<open>TypeError\<close>
  (\<open>None\<close>) on anything else.
\<close>

datatype json =
  JNull | JBool bool | JNumber rat | JString string | JArray "json list"
| JObject "(string \<times> json) list"

definition jsonIncludes :: "json \<Rightarrow> string \<Rightarrow> bool option" where
  "jsonIncludes v x =
     (case v of
        JString s \<Rightarrow> Some (str_includes s x)
      | JArray vs \<Rightarrow> Some (JString x \<in> set vs)
      | _ \<Rightarrow> None)"

section \<open>The login automation (\<open>LPUAutomatedLogin\<close>)\<close>

subsection \<open>Step 5: \<open>convertCaptchaText\<close>\<close>

text \<open>
  The \<open>while (true)\<close> loop that looks for the pattern. It has no other exit than the
  \<open>break\<close>, so it is a partial function: \<open>None\<close> is the run that never leaves the loop,
  \<open>Some p\<close> the value of \<open>currentPos\<close> at the \<open>break\<close>. The first argument is
  \<open>parseInt(sp)\<close>, the second \<open>hs\<close> where that is a string and \<open>None\<close> where it is
  anything else, which \<open>===\<close> tells from every digest.
\<close>

partial_function (option) solveHashPuzzle ::
  "number \<Rightarrow> string option \<Rightarrow> string \<Rightarrow> number option" where
  "solveHashPuzzle currentPos targetHash vcid =
     (let testString = toString currentPos @ vcid;
          hash = sha1_hex testString
      in if Some hash = targetHash then Some currentPos
         else solveHashPuzzle (jsIncrement currentPos) targetHash vcid)"

declare solveHashPuzzle.simps [code]

text \<open>
  The rest of \<open>convertCaptchaText\<close>: the case modifier, its binary pattern, and the
  \<open>for\<close> loop that walks \<open>text\<close> from its last character to its first. The loop
  counter \<open>i\<close> of the source is the argument \<open>i\<close> of \<open>Suc i\<close> here; reading
  \<open>binaryArray\<close> outside its bounds yields \<open>undefined\<close>, which is \<open>None\<close>.
\<close>

definition caseModifier :: "number \<Rightarrow> number" where
  "caseModifier currentPos =
     (case currentPos of Num v \<Rightarrow> Num (js_rem v 65533 + 1) | _ \<Rightarrow> NaN)"

definition binaryPattern :: "number \<Rightarrow> string" where
  "binaryPattern currentPos = natToString 2 (toUint32 (caseModifier currentPos))"

fun caseLoop :: "string \<Rightarrow> string \<Rightarrow> nat \<Rightarrow> string \<Rightarrow> string" where
  "caseLoop text binaryArray 0 result = result"
| "caseLoop text binaryArray (Suc i) result =
     (let binaryLength = int (length binaryArray);
          binaryIndex = binaryLength - (int (length text) - int i);
          binaryDigit = (if 0 \<le> binaryIndex \<and> binaryIndex < binaryLength
                         then Some (binaryArray ! nat binaryIndex) else None)
      in if binaryDigit \<noteq> None \<and> binaryDigit = Some CHR ''1''
         then caseLoop text binaryArray i (toUpperCase (text ! i) # result)
         else caseLoop text binaryArray i (toLowerCase (text ! i) # result))"

definition applyCaseConversion :: "string \<Rightarrow> number \<Rightarrow> string" where
  "applyCaseConversion text currentPos =
     caseLoop text (binaryPattern currentPos) (length text) []"

definition convertCaptchaText ::
  "string \<Rightarrow> number \<Rightarrow> string option \<Rightarrow> string \<Rightarrow> string option" where
  "convertCaptchaText text sp hs vcid =
     (case solveHashPuzzle sp hs vcid of
        None \<Rightarrow> None
      | Some currentPos \<Rightarrow> Some (applyCaseConversion text currentPos))"

subsection \<open>Configuration\<close>

record config =
  apiKey :: string
  minBalance :: rat
  username :: string
  password :: string
  saveSessionCookies :: bool

definition validateConfig :: "config \<Rightarrow> bool" where
  "validateConfig cfg =
     (let errors =
        (if username cfg = [] \<or> password cfg = []
         then [''LPU credentials not configured''] else [])
        @ (if apiKey cfg = [] then [''Anti-Captcha API key not configured''] else [])
      in if length errors > 0 then False else True)"

subsection \<open>The session file and the cookie merge of \<open>extractAndSaveCookies\<close>\<close>

text \<open>
  \<open>src/data/session_cookies.json\<close> is the one file both classes read and write
  (\<open>AuthManager\<close> names it relative to the working directory, the repository root;
  \<open>LPUAutomatedLogin\<close> relative to its own directory \<open>src\<close>). It is absent
  (\<open>None\<close>), holds text that \<open>JSON.parse\<close> rejects, or holds a record. A timestamp
  is kept as the milliseconds \<open>new Date(timestamp).getTime()\<close> yields, \<open>None\<close> where
  that is \<open>NaN\<close>; \<open>cookies\<close> is \<open>null\<close> or a string. Reading fails exactly when
  the file is absent; writing and unlinking an existing file succeed.
\<close>

record sessionData =
  timestamp :: "int option"
  sdUsername :: string
  sdCookies :: "string option"
  cookieArray :: "string list"
  loginSuccess :: bool

datatype sessionFileContent = Unparsable | Parsed sessionData

definition truthy :: "string option \<Rightarrow> bool" where
  "truthy v = (case v of None \<Rightarrow> False | Some s \<Rightarrow> s \<noteq> [])"

text \<open>\<open>s.split('; ')\<close> and \<open>xs.join('; ')\<close>.\<close>

fun splitCookies :: "string \<Rightarrow> string list" where
  "splitCookies [] = [[]]"
| "splitCookies [c] = [[c]]"
| "splitCookies (c # d # cs) =
     (if c = CHR '';'' \<and> d = CHR '' '' then [] # splitCookies cs
      else (case splitCookies (d # cs) of
              [] \<Rightarrow> [[c]]
            | p # ps \<Rightarrow> (c # p) # ps))"

fun joinCookies :: "string list \<Rightarrow> string" where
  "joinCookies [] = []"
| "joinCookies [x] = x"
| "joinCookies (x # y # ys) = x @ ''; '' @ joinCookies (y # ys)"

text \<open>\<open>cookieString.split(';')[0]\<close> and \<open>newCookie.split('=')[0]\<close>.\<close>

definition cookiePart :: "string \<Rightarrow> string" where
  "cookiePart cookieString = takeWhile (\<lambda>c. c \<noteq> CHR '';'') cookieString"

definition cookieName :: "string \<Rightarrow> string" where
  "cookieName newCookie = takeWhile (\<lambda>c. c \<noteq> CHR ''='') newCookie"

definition allCookies :: "string list option \<Rightarrow> string list" where
  "allCookies setCookieHeader =
     (case setCookieHeader of
        None \<Rightarrow> []
      | Some hdrs \<Rightarrow> filter (\<lambda>p. p \<noteq> [] \<and> CHR ''='' \<in> set p) (map cookiePart hdrs))"

definition existingCookies :: "string \<Rightarrow> string list" where
  "existingCookies cookies = filter (\<lambda>c. length c > 0) (splitCookies cookies)"

fun combineCookies :: "string list \<Rightarrow> string list \<Rightarrow> string list" where
  "combineCookies combinedCookies [] = combinedCookies"
| "combineCookies combinedCookies (newCookie # rest) =
     (let filteredCookies =
            filter (\<lambda>c. \<not> startsWith c (cookieName newCookie @ ''='')) combinedCookies
      in combineCookies (filteredCookies @ [newCookie]) rest)"

definition mergedCookieArray :: "string \<Rightarrow> string list option \<Rightarrow> string list" where
  "mergedCookieArray cookies setCookieHeader =
     combineCookies (existingCookies cookies) (allCookies setCookieHeader)"

definition mergedCookies :: "string \<Rightarrow> string list option \<Rightarrow> string" where
  "mergedCookies cookies setCookieHeader =
     joinCookies (mergedCookieArray cookies setCookieHeader)"

subsection \<open>What the portal and the solving service answer\<close>

text \<open>
  Each request of one run has one answer: an error message where the call throws, or
  the part of the reply the code reads. The HTML of the login page is given by the
  value of the hidden field \<open>BDC_VCID_c_loginnew_examplecaptcha\<close> as \<open>+\<close> appends
  it to a string (\<open>undefined\<close> for a page without the field), the parameter \<open>sp\<close> by
  \<open>parseInt(sp)\<close>, the parameter \<open>hs\<close> by its text where it is a string. The
  answer to the form is a response, or none when the request fails on the network; its
  \<open>data\<close> is what axios hands over, the body as a string or, where the body is JSON
  text, the value parsed from it.
\<close>

record loginPage =
  pageSetCookie :: "string list option"
  pageVcid :: string

record captchaParams =
  paramSp :: number
  paramHs :: "string option"

record response =
  status :: int
  location :: "string option"
  setCookie :: "string list option"
  data :: json

record portal =
  loginPageReply :: "string + loginPage"
  captchaParamsReply :: "string + captchaParams"
  captchaImageReply :: "string + string"
  balanceReply :: "string + rat"
  solveImageReply :: "string + string"
  submitReply :: "response option"

datatype netcall =
  GetLoginPage | GetCaptchaParams | GetCaptchaImage | GetBalance | SolveImage | PostLogin

subsection \<open>The steps of a run\<close>

text \<open>
  The fields of \<open>this\<close> that the steps read and write. \<open>scrapedData\<close> is \<open>null\<close>
  (\<open>None\<close>) until the login page has been scraped, and then the object of the form
  values, of which the identifier of the challenge is kept.
\<close>

record login =
  loginCookies :: string
  loginSessionCookies :: string
  scrapedData :: "string option"

text \<open>The constructor: it throws when \<open>validateConfig\<close> fails.\<close>

definition newLogin :: login where
  "newLogin = \<lparr>loginCookies = [], loginSessionCookies = [], scrapedData = None\<rparr>"

definition newLPUAutomatedLogin :: "config \<Rightarrow> string + login" where
  "newLPUAutomatedLogin cfg =
     (if \<not> validateConfig cfg then Inl ''Configuration validation failed'' else Inr newLogin)"

text \<open>The first match of \<open>/_ga_B0Z6G6GCD8=([^;]+)/\<close>, its group.\<close>

fun gaMatch :: "string \<Rightarrow> string option" where
  "gaMatch [] = None"
| "gaMatch (c # cs) =
     (let v = takeWhile (\<lambda>x. x \<noteq> CHR '';'') (drop 15 (c # cs))
      in if startsWith (c # cs) ''_ga_B0Z6G6GCD8='' \<and> v \<noteq> [] then Some v else gaMatch cs)"

definition scrapeLoginPageData :: "portal \<Rightarrow> login \<Rightarrow> string + login" where
  "scrapeLoginPageData p lg =
     (case loginPageReply p of
        Inl e \<Rightarrow> Inl e
      | Inr page \<Rightarrow>
          Inr (lg\<lparr>loginCookies :=
                     (case pageSetCookie page of
                        None \<Rightarrow> loginCookies lg
                      | Some setCookieHeader \<Rightarrow>
                          (case gaMatch (joinCookies setCookieHeader) of
                             None \<Rightarrow> loginCookies lg
                           | Some m \<Rightarrow> ''_ga_B0Z6G6GCD8='' @ m)),
                   scrapedData := Some (pageVcid page)\<rparr>))"

definition getCaptchaParameters ::
  "portal \<Rightarrow> login \<Rightarrow> (string + captchaParams \<times> string) \<times> netcall list" where
  "getCaptchaParameters p lg =
     (case scrapedData lg of
        None \<Rightarrow> (Inl ''Cannot read properties of null'', [])
      | Some vcid \<Rightarrow>
          (case captchaParamsReply p of
             Inl e \<Rightarrow> (Inl e, [GetCaptchaParams])
           | Inr params \<Rightarrow> (Inr (params, vcid), [GetCaptchaParams])))"

definition getCaptchaImage :: "portal \<Rightarrow> string + string" where
  "getCaptchaImage p = captchaImageReply p"

definition solveCaptcha :: "config \<Rightarrow> portal \<Rightarrow> (string + string) \<times> netcall list" where
  "solveCaptcha cfg p =
     (case balanceReply p of
        Inl e \<Rightarrow> (Inl e, [GetBalance])
      | Inr balance \<Rightarrow>
          if balance < minBalance cfg
          then (Inl ''Insufficient balance in Anti-Captcha account'', [GetBalance])
          else (solveImageReply p, [GetBalance, SolveImage]))"

definition extractAndSaveCookies ::
  "config \<Rightarrow> int \<Rightarrow> response \<Rightarrow> login \<times> sessionFileContent option
     \<Rightarrow> login \<times> sessionFileContent option" where
  "extractAndSaveCookies cfg now r st =
     (case st of (lg, file) \<Rightarrow>
        if \<not> saveSessionCookies cfg then (lg, file)
        else
          (let combinedCookies = mergedCookieArray (loginCookies lg) (setCookie r);
               sessionCookies = joinCookies combinedCookies;
               cookieData = \<lparr>timestamp = Some now, sdUsername = username cfg,
                             sdCookies = Some sessionCookies, cookieArray = combinedCookies,
                             loginSuccess = True\<rparr>
           in (lg\<lparr>loginSessionCookies := sessionCookies\<rparr>, Some (Parsed cookieData))))"

record loginResult =
  success :: bool
  redirectUrl :: "string option"
  resultCookies :: "string option"

text \<open>
  \<open>axios.post\<close> with \<open>maxRedirects: 0\<close> and the \<open>validateStatus\<close> of the call:
  it resolves with a response whose status passes, and rejects otherwise, with the
  response when there is one.
\<close>

definition validateStatus :: "int \<Rightarrow> bool" where
  "validateStatus statusCode = (statusCode < 400)"

datatype axiosResult = Resolved response | Rejected "response option"

definition axiosPost :: "response option \<Rightarrow> axiosResult" where
  "axiosPost reply =
     (case reply of
        None \<Rightarrow> Rejected None
      | Some r \<Rightarrow> if validateStatus (status r) then Resolved r else Rejected (Some r))"

text \<open>
  \<open>submitLoginForm\<close>, with the requests it sends. The form is filled from
  \<open>this.scrapedData\<close> before the \<open>try\<close>: with \<open>scrapedData\<close> still \<open>null\<close> the
  method throws a \<open>TypeError\<close> and sends nothing. The second operand of \<open>||\<close> is
  evaluated when the first is false; an \<open>includes\<close> that throws is caught and thrown
  again, as the error has no response.
\<close>

definition submitLoginForm ::
  "config \<Rightarrow> portal \<Rightarrow> int \<Rightarrow> login \<times> sessionFileContent option
     \<Rightarrow> (string + loginResult) \<times> netcall list \<times> login \<times> sessionFileContent option" where
  "submitLoginForm cfg p now st =
     (case scrapedData (fst st) of
        None \<Rightarrow> (Inl ''Cannot read properties of null'', [], st)
      | Some vcid \<Rightarrow>
     (case axiosPost (submitReply p) of
        Resolved r \<Rightarrow>
          if status r = 302 \<or> truthy (location r) then
            (let st' = extractAndSaveCookies cfg now r st
             in (Inr \<lparr>success = True, redirectUrl = location r,
                       resultCookies = Some (loginSessionCookies (fst st'))\<rparr>, [PostLogin], st'))
          else
            (case (case jsonIncludes (data r) ''Invalid'' of
                     Some False \<Rightarrow> jsonIncludes (data r) ''Error''
                   | v \<Rightarrow> v) of
               None \<Rightarrow> (Inl ''response.data.includes is not a function'', [PostLogin], st)
             | Some True \<Rightarrow>
                 (Inr \<lparr>success = False, redirectUrl = None, resultCookies = None\<rparr>,
                  [PostLogin], st)
             | Some False \<Rightarrow>
                 (let st' = extractAndSaveCookies cfg now r st
                  in (Inr \<lparr>success = True, redirectUrl = None,
                            resultCookies = Some (loginSessionCookies (fst st'))\<rparr>,
                      [PostLogin], st')))
      | Rejected None \<Rightarrow> (Inl ''Error submitting form'', [PostLogin], st)
      | Rejected (Some r) \<Rightarrow>
          if status r = 302 then
            (let st' = extractAndSaveCookies cfg now r st
             in (Inr \<lparr>success = True, redirectUrl = location r,
                       resultCookies = Some (loginSessionCookies (fst st'))\<rparr>, [PostLogin], st'))
          else (Inl ''Error submitting form'', [PostLogin], st)))"

text \<open>
  \<open>runAutomation\<close>: the steps in order, with the requests sent so far. \<open>None\<close> is
  the run that stays in the loop of \<open>convertCaptchaText\<close>.
\<close>

definition runAutomation ::
  "config \<Rightarrow> portal \<Rightarrow> login \<Rightarrow> int \<Rightarrow> sessionFileContent option
     \<Rightarrow> ((string + loginResult) \<times> netcall list \<times> sessionFileContent option) option" where
  "runAutomation cfg p automation now file =
     (case scrapeLoginPageData p automation of
        Inl e \<Rightarrow> Some (Inl e, [GetLoginPage], file)
      | Inr lg \<Rightarrow>
     (case getCaptchaParameters p lg of
        (Inl e, calls2) \<Rightarrow> Some (Inl e, [GetLoginPage] @ calls2, file)
      | (Inr (captchaParams, vcid), calls2) \<Rightarrow>
     (case getCaptchaImage p of
        Inl e \<Rightarrow> Some (Inl e, [GetLoginPage] @ calls2 @ [GetCaptchaImage], file)
      | Inr base64Image \<Rightarrow>
     (case solveCaptcha cfg p of
        (Inl e, calls4) \<Rightarrow>
          Some (Inl e, [GetLoginPage] @ calls2 @ [GetCaptchaImage] @ calls4, file)
      | (Inr solvedCaptcha, calls4) \<Rightarrow>
     (case convertCaptchaText solvedCaptcha (paramSp captchaParams) (paramHs captchaParams) vcid of
        None \<Rightarrow> None
      | Some convertedCaptcha \<Rightarrow>
     (case submitLoginForm cfg p now (lg, file) of
        (result, calls6, lg', file') \<Rightarrow>
          Some (result, [GetLoginPage] @ calls2 @ [GetCaptchaImage] @ calls4 @ calls6,
                file')))))))"

section \<open>The session manager (\<open>AuthManager\<close>)\<close>

record authManager =
  sessionCookies :: "string option"
  sessionFile :: "sessionFileContent option"

definition clearSessionData :: "authManager \<Rightarrow> authManager" where
  "clearSessionData s = s\<lparr>sessionCookies := None, sessionFile := None\<rparr>"

definition saveSessionData :: "config \<Rightarrow> int \<Rightarrow> authManager \<Rightarrow> authManager" where
  "saveSessionData cfg now s =
     (let existing =
            (case sessionFile s of
               Some (Parsed d) \<Rightarrow> d
             | _ \<Rightarrow> \<lparr>timestamp = Some now, sdUsername = username cfg, sdCookies = Some [],
                      cookieArray = [], loginSuccess = False\<rparr>);
          updated = existing\<lparr>sdCookies := sessionCookies s,
                             cookieArray := (case sessionCookies s of
                                               None \<Rightarrow> []
                                             | Some c \<Rightarrow> if c = [] then [] else [c]),
                             timestamp := Some now,
                             loginSuccess := truthy (sessionCookies s)\<rparr>
      in s\<lparr>sessionFile := Some (Parsed updated)\<rparr>)"

definition loadSessionData :: "int \<Rightarrow> authManager \<Rightarrow> bool \<times> authManager" where
  "loadSessionData now s =
     (case sessionFile s of
        Some (Parsed d) \<Rightarrow>
          if truthy (sdCookies d) \<and> loginSuccess d then
            if (case timestamp d of None \<Rightarrow> False | Some t \<Rightarrow> now - t > 30 * 60 * 1000)
            then (False, clearSessionData s)
            else (True, s\<lparr>sessionCookies := sdCookies d\<rparr>)
          else (False, s)
      | _ \<Rightarrow> (False, s))"

definition authenticateWithUMS ::
  "bool \<Rightarrow> config \<Rightarrow> portal \<Rightarrow> int \<Rightarrow> int \<Rightarrow> authManager
     \<Rightarrow> (string option \<times> netcall list \<times> authManager) option" where
  "authenticateWithUMS forceRefresh cfg p tLogin tSave s =
     (if \<not> forceRefresh \<and> truthy (sessionCookies s) then Some (sessionCookies s, [], s)
      else
        (case newLPUAutomatedLogin cfg of
           Inl e \<Rightarrow> Some (None, [], clearSessionData s)
         | Inr automation \<Rightarrow>
        (case runAutomation cfg p automation tLogin (sessionFile s) of
           None \<Rightarrow> None
         | Some (Inl e, calls, file) \<Rightarrow>
             Some (None, calls, clearSessionData (s\<lparr>sessionFile := file\<rparr>))
         | Some (Inr result, calls, file) \<Rightarrow>
             if success result \<and> truthy (resultCookies result) then
               (let s' = saveSessionData cfg tSave
                           (s\<lparr>sessionCookies := resultCookies result, sessionFile := file\<rparr>)
                in Some (sessionCookies s', calls, s'))
             else Some (None, calls, clearSessionData (s\<lparr>sessionFile := file\<rparr>)))))"

definition getSessionCookies :: "authManager \<Rightarrow> string option" where
  "getSessionCookies s = sessionCookies s"

definition hasValidSession :: "authManager \<Rightarrow> bool" where
  "hasValidSession s = truthy (sessionCookies s)"

text \<open>
  The constructor sets \<open>sessionCookies\<close> to \<open>null\<close> over whatever file there is.
  The states an \<open>AuthManager\<close> can be in are those that a sequence of calls of its
  methods leads to from there; \<open>None\<close> is a sequence with a call that never returns.
\<close>

definition newAuthManager :: "sessionFileContent option \<Rightarrow> authManager" where
  "newAuthManager file = \<lparr>sessionCookies = None, sessionFile = file\<rparr>"

datatype methodCall =
  SaveSessionData config int
| LoadSessionData int
| ClearSessionData
| AuthenticateWithUMS bool config portal int int

fun callMethod :: "methodCall \<Rightarrow> authManager \<Rightarrow> authManager option" where
  "callMethod (SaveSessionData cfg now) s = Some (saveSessionData cfg now s)"
| "callMethod (LoadSessionData now) s = Some (snd (loadSessionData now s))"
| "callMethod ClearSessionData s = Some (clearSessionData s)"
| "callMethod (AuthenticateWithUMS forceRefresh cfg p tLogin tSave) s =
     (case authenticateWithUMS forceRefresh cfg p tLogin tSave s of
        None \<Rightarrow> None
      | Some (r, calls, s') \<Rightarrow> Some s')"

fun callMethods :: "methodCall list \<Rightarrow> authManager \<Rightarrow> authManager option" where
  "callMethods [] s = Some s"
| "callMethods (c # cs) s =
     (case callMethod c s of
        None \<Rightarrow> None
      | Some s' \<Rightarrow> callMethods cs s')"

section \<open>Sample values for the scenarios\<close>

definition sampleConfig :: config where
  "sampleConfig = \<lparr>apiKey = ''key'', minBalance = 1 / 1000, username = ''12345678'',
     password = ''secret'', saveSessionCookies = True\<rparr>"

definition redirectWithError :: response where
  "redirectWithError = \<lparr>status = 302, location = Some ''/lpuums/StudentDashboard.aspx'',
     setCookie = Some [''ASP.NET_SessionId=abc123; path=/; HttpOnly''],
     data = JString ''Error''\<rparr>"

definition movedWithError :: response where
  "movedWithError = \<lparr>status = 301, location = None, setCookie = None,
     data = JString ''Error''\<rparr>"

definition scrapedLogin :: login where
  "scrapedLogin = \<lparr>loginCookies = [], loginSessionCookies = [], scrapedData = Some ''abc''\<rparr>"

definition samplePortal :: "response \<Rightarrow> portal" where
  "samplePortal r = \<lparr>loginPageReply = Inr \<lparr>pageSetCookie = None, pageVcid = ''abc''\<rparr>,
     captchaParamsReply = Inr \<lparr>paramSp = Num 100, paramHs = Some (sha1_hex ''103abc'')\<rparr>,
     captchaImageReply = Inr ''iVBORw0KGgo='',
     balanceReply = Inr 5,
     solveImageReply = Inr ''k7f2'',
     submitReply = Some r\<rparr>"

definition sampleRecord :: sessionData where
  "sampleRecord = \<lparr>timestamp = Some 0, sdUsername = ''12345678'',
     sdCookies = Some ''ASP.NET_SessionId=abc123'', cookieArray = [''ASP.NET_SessionId=abc123''],
     loginSuccess = True\<rparr>"

section \<open>Evaluating SHA-1\<close>

lemma schedule_numeral:
  "schedule (numeral k) rw =
     schedule (pred_numeral k) (rotl 1 (rw ! 2 XOR rw ! 7 XOR rw ! 13 XOR rw ! 15) # rw)"
  by (simp add: numeral_eq_Suc)

lemma replicate_numeral_unfold: "replicate (numeral k) x = x # replicate (pred_numeral k) x"
  by (simp add: numeral_eq_Suc)

lemmas sha1_eval =
  sha1_hex_def sha1_pad_def be_bytes64_def compress_def add_state_def add32_def not32_def
  sha1_init_def hex32_def hex_digit_def rotl_def schedule_numeral f_ch_def f_parity_def
  f_maj_def replicate_numeral_unfold

text \<open>The test vector of FIPS 180 for a one-block message.\<close>

lemma sha1_abc: "sha1_hex ''abc'' = ''a9993e364706816aba3e25717850c26c9cd0d89d''"
  by (simp add: sha1_eval)

text \<open>The two-block test vector: the padding runs into a second block.\<close>

lemma sha1_two_blocks:
  "sha1_hex ''abcdbcdecdefdefgefghfghighijhijkijkljklmklmnlmnomnopnopq''
     = ''84983e441c3bd26ebaae4aa1f95129e5e54670f1''"
  by (simp add: sha1_eval)

lemma sha1_hex_length: "length (sha1_hex s) = 40"
  by (simp add: sha1_hex_def hex32_def split: prod.splits)

lemma sha1_100abc: "sha1_hex ''100abc'' = ''df9870fdce61a625c99e84214cecb1e6830668c7''"
  by (simp add: sha1_eval)

lemma sha1_101abc: "sha1_hex ''101abc'' = ''6142e42f1ed28dfb5b47a8c5b8b436d1daa66afe''"
  by (simp add: sha1_eval)

lemma sha1_102abc: "sha1_hex ''102abc'' = ''7f84870e783c3ea9bc4509b4612c7e5c4f3819b6''"
  by (simp add: sha1_eval)

lemma sha1_103abc: "sha1_hex ''103abc'' = ''c7614830966e1b0142069a48b4472918979fd105''"
  by (simp add: sha1_eval)

lemma sha1_limit_abc:
  "sha1_hex ''9007199254740992abc'' = ''6e883d09ab86a40d66bdf5684280314f47c2eaf4''"
  by (simp add: sha1_eval)

lemma sha1_beyond_abc:
  "sha1_hex ''9007199254740993abc'' = ''bc64c9a54335e01fafaaf04953254674aeba2b2a''"
  by (simp add: sha1_eval)

section \<open>Numbers\<close>

text \<open>
  Some values of the arithmetic and of \<open>toString\<close> beyond \<open>2^53\<close>, as Node.js
  prints them: above \<open>2^53\<close> the doubles are the even integers, a tie goes to the
  even significand, \<open>2^64\<close> has 17 significant digits, and the exponent form starts
  at \<open>10^21\<close>.
\<close>

lemma shortestDigits_numeral:
  "shortestDigits a d k (numeral f) =
     (case closest a k (digitCandidates a d k) of
        Some (s, n) \<Rightarrow> (s, n, k)
      | None \<Rightarrow> shortestDigits a d (Suc k) (pred_numeral f))"
  by (simp add: numeral_eq_Suc)

lemmas number_eval =
  toString_def largeToString_def shortestDigits_numeral digitCandidates_def roundToDouble_def
  jsIncrement_def bitLength.simps decimal_def natToString.simps digitChar_def Let_def

lemma jsIncrement_even: "jsIncrement (Num 9007199254740994) = Num 9007199254740996"
  by (simp add: number_eval split del: if_split)

lemma roundToDouble_tie: "roundToDouble 9007199254740995 = 9007199254740996"
  by (simp add: number_eval split del: if_split)

lemma toString_two_64: "toString (Num 18446744073709551616) = ''18446744073709552000''"
  by (simp add: number_eval split del: if_split)

lemma toString_exponent: "toString (Num 1000000000000000000000) = ''1e+21''"
  by (simp add: number_eval split del: if_split)

lemma toString_special:
  "toString NaN = ''NaN'' \<and> toString PosInfinity = ''Infinity''
   \<and> toString NegInfinity = ''-Infinity'' \<and> toString (Num (- 7)) = ''-7''"
  by (simp add: toString_def decimal_def natToString.simps digitChar_def)

lemma bitLength_bound: "a < 2 ^ n \<Longrightarrow> bitLength a \<le> n"
proof (induction n arbitrary: a)
  case 0
  then show ?case by (simp add: bitLength.simps)
next
  case (Suc n)
  show ?case
  proof (cases "a \<le> 0")
    case True
    then show ?thesis by (simp add: bitLength.simps)
  next
    case False
    have "a div 2 < 2 ^ n" using Suc.prems by simp
    from Suc.IH [OF this] show ?thesis using False by (subst bitLength.simps) simp
  qed
qed

lemma bitLength_power: "bitLength (2 ^ n) = Suc n"
proof (induction n)
  case 0
  show ?case by (simp add: bitLength.simps [of 1] bitLength.simps [of 0])
next
  case (Suc n)
  then show ?case by (subst bitLength.simps) simp
qed

lemma bitLength_limit: "bitLength 9007199254740992 = 54"
  using bitLength_power [of 53] by simp

lemma bitLength_odd: "0 < a \<Longrightarrow> bitLength (2 * a + 1) = Suc (bitLength a)"
  by (subst bitLength.simps) simp

lemma bitLength_beyond: "bitLength 9007199254740993 = 54"
  using bitLength_odd [of "2 ^ 52"] bitLength_power [of 52] by simp

lemma roundToDouble_exact:
  assumes "\<bar>v\<bar> \<le> 9007199254740992"
  shows "roundToDouble v = v"
proof (cases "\<bar>v\<bar> = 9007199254740992")
  case True
  then show ?thesis
    by (auto simp: roundToDouble_def bitLength_limit Let_def abs_if split: if_splits)
next
  case False
  with assms have "\<bar>v\<bar> < 2 ^ 53" by simp
  then have "bitLength \<bar>v\<bar> \<le> 53" by (rule bitLength_bound)
  then show ?thesis by (simp add: roundToDouble_def Let_def)
qed

lemma roundToDouble_beyond: "roundToDouble 9007199254740993 = 9007199254740992"
  by (simp add: roundToDouble_def bitLength_beyond Let_def)

lemma jsIncrement_exact:
  "- 9007199254740992 \<le> n \<Longrightarrow> n < 9007199254740992 \<Longrightarrow> jsIncrement (Num n) = Num (n + 1)"
  by (simp add: jsIncrement_def roundToDouble_exact)

lemma jsIncrement_limit: "jsIncrement (Num 9007199254740992) = Num 9007199254740992"
  by (simp add: jsIncrement_def roundToDouble_beyond)

lemma jsIncrement_funpow_limit:
  "(jsIncrement ^^ n) (Num 9007199254740992) = Num 9007199254740992"
  by (induction n) (simp_all add: jsIncrement_limit)

lemma jsIncrement_funpow:
  assumes "- 9007199254740992 \<le> seed" and "seed \<le> 9007199254740992"
  shows "(jsIncrement ^^ n) (Num seed) = Num (min (seed + int n) 9007199254740992)"
proof (induction n)
  case 0
  with assms show ?case by simp
next
  case (Suc n)
  show ?case
  proof (cases "seed + int n < 9007199254740992")
    case True
    with assms Suc show ?thesis by (simp add: jsIncrement_exact min_def)
  next
    case False
    with Suc show ?thesis by (simp add: jsIncrement_limit min_def)
  qed
qed

lemma toString_decimal: "\<bar>v\<bar> \<le> 9007199254740992 \<Longrightarrow> toString (Num v) = decimal v"
  by (simp add: toString_def)

lemma decimal_100: "decimal 100 = ''100''" and decimal_101: "decimal 101 = ''101''"
  and decimal_102: "decimal 102 = ''102''" and decimal_103: "decimal 103 = ''103''"
  by (simp_all add: decimal_def natToString.simps digitChar_def)

lemma decimal_limit: "decimal 9007199254740992 = ''9007199254740992''"
  by (simp add: decimal_def natToString.simps digitChar_def)

lemma decimal_beyond: "decimal 9007199254740993 = ''9007199254740993''"
  by (simp add: decimal_def natToString.simps digitChar_def)

section \<open>The puzzle search\<close>

lemma solve_hit:
  "Some (sha1_hex (toString x @ vcid)) = hs \<Longrightarrow> solveHashPuzzle x hs vcid = Some x"
  by (subst solveHashPuzzle.simps) simp

lemma solve_miss:
  "Some (sha1_hex (toString x @ vcid)) \<noteq> hs \<Longrightarrow>
   solveHashPuzzle x hs vcid = solveHashPuzzle (jsIncrement x) hs vcid"
  by (subst solveHashPuzzle.simps) simp

lemma solve_skip:
  "(\<And>m. m < n \<Longrightarrow> Some (sha1_hex (toString ((jsIncrement ^^ m) x) @ vcid)) \<noteq> hs) \<Longrightarrow>
   solveHashPuzzle x hs vcid = solveHashPuzzle ((jsIncrement ^^ n) x) hs vcid"
proof (induction n)
  case 0
  show ?case by simp
next
  case (Suc n)
  have "solveHashPuzzle x hs vcid = solveHashPuzzle ((jsIncrement ^^ n) x) hs vcid"
    using Suc.prems by (intro Suc.IH) simp
  also have "\<dots> = solveHashPuzzle (jsIncrement ((jsIncrement ^^ n) x)) hs vcid"
    using Suc.prems [of n] by (intro solve_miss) simp
  finally show ?case by simp
qed

lemma solve_first_match:
  assumes "Some (sha1_hex (toString ((jsIncrement ^^ n) x) @ vcid)) = hs"
    and "\<And>m. m < n \<Longrightarrow> Some (sha1_hex (toString ((jsIncrement ^^ m) x) @ vcid)) \<noteq> hs"
  shows "solveHashPuzzle x hs vcid = Some ((jsIncrement ^^ n) x)"
  using solve_skip [of n x vcid hs, OF assms(2)] solve_hit [OF assms(1)] by simp

lemma solve_sound:
  assumes "solveHashPuzzle x hs vcid = Some y"
  shows "\<exists>n. y = (jsIncrement ^^ n) x \<and> Some (sha1_hex (toString y @ vcid)) = hs"
proof (rule solveHashPuzzle.raw_induct
    [where P = "\<lambda>p h v y. \<exists>n. y = (jsIncrement ^^ n) p \<and> Some (sha1_hex (toString y @ v)) = h",
     OF _ assms])
  fix f :: "number \<Rightarrow> string option \<Rightarrow> string \<Rightarrow> number option" and p h v y
  assume IH: "\<And>p' h' v' y'. f p' h' v' = Some y' \<Longrightarrow>
                \<exists>n. y' = (jsIncrement ^^ n) p' \<and> Some (sha1_hex (toString y' @ v')) = h'"
    and step: "(let testString = toString p @ v; hash = sha1_hex testString
                in if Some hash = h then Some p else f (jsIncrement p) h v) = Some y"
  show "\<exists>n. y = (jsIncrement ^^ n) p \<and> Some (sha1_hex (toString y @ v)) = h"
  proof (cases "Some (sha1_hex (toString p @ v)) = h")
    case True
    with step have "y = p" by (simp add: Let_def)
    with True have "y = (jsIncrement ^^ 0) p \<and> Some (sha1_hex (toString y @ v)) = h"
      by simp
    then show ?thesis by (rule exI)
  next
    case False
    with step have "f (jsIncrement p) h v = Some y" by (simp add: Let_def)
    from IH [OF this] obtain n where
      "y = (jsIncrement ^^ n) (jsIncrement p)" "Some (sha1_hex (toString y @ v)) = h"
      by blast
    then have "y = (jsIncrement ^^ Suc n) p \<and> Some (sha1_hex (toString y @ v)) = h"
      by (simp add: funpow_swap1)
    then show ?thesis by blast
  qed
qed

lemma first_match:
  assumes "Some (sha1_hex (toString ((jsIncrement ^^ n) x) @ vcid)) = hs"
  shows "\<exists>k \<le> n. Some (sha1_hex (toString ((jsIncrement ^^ k) x) @ vcid)) = hs
           \<and> (\<forall>m < k. Some (sha1_hex (toString ((jsIncrement ^^ m) x) @ vcid)) \<noteq> hs)
           \<and> solveHashPuzzle x hs vcid = Some ((jsIncrement ^^ k) x)"
proof -
  define M where "M k \<longleftrightarrow> Some (sha1_hex (toString ((jsIncrement ^^ k) x) @ vcid)) = hs" for k
  have Mn: "M n" using assms by (simp add: M_def)
  define k where "k = (LEAST k. M k)"
  have Mk: "M k" unfolding k_def using Mn by (rule LeastI)
  have kle: "k \<le> n" unfolding k_def using Mn by (rule Least_le)
  have least: "\<not> M m" if "m < k" for m
    using that not_less_Least unfolding k_def by blast
  have "solveHashPuzzle x hs vcid = Some ((jsIncrement ^^ k) x)"
    using Mk least by (intro solve_first_match) (simp_all add: M_def)
  with Mk kle least show ?thesis unfolding M_def by blast
qed

lemma solve_stuck:
  assumes "jsIncrement x = x" and "Some (sha1_hex (toString x @ vcid)) \<noteq> hs"
  shows "solveHashPuzzle x hs vcid = None"
proof (cases "solveHashPuzzle x hs vcid")
  case None
  then show ?thesis .
next
  case (Some y)
  from solve_sound [OF this] obtain n where
    n: "y = (jsIncrement ^^ n) x" "Some (sha1_hex (toString y @ vcid)) = hs" by blast
  have "(jsIncrement ^^ n) x = x" using assms(1) by (induction n) simp_all
  with n assms(2) show ?thesis by simp
qed

lemma solve_sample:
  "solveHashPuzzle (Num 100) (Some (sha1_hex ''103abc'')) ''abc'' = Some (Num 103)"
proof -
  have it: "(jsIncrement ^^ n) (Num 100) = Num (100 + int n)" if "n \<le> 3" for n
    using that jsIncrement_funpow [of 100 n] by (simp add: min_def)
  have hit: "Some (sha1_hex (toString ((jsIncrement ^^ 3) (Num 100)) @ ''abc''))
               = Some (sha1_hex ''103abc'')"
    by (simp add: it toString_decimal decimal_103)
  have miss: "Some (sha1_hex (toString ((jsIncrement ^^ m) (Num 100)) @ ''abc''))
               \<noteq> Some (sha1_hex ''103abc'')" if "m < 3" for m
  proof -
    from that have "m = 0 \<or> m = 1 \<or> m = 2" by arith
    then show ?thesis
      using it [of 0] it [of 1] it [of 2]
      by (auto simp: toString_decimal decimal_100 decimal_101 decimal_102
            sha1_100abc sha1_101abc sha1_102abc sha1_103abc)
  qed
  from solve_first_match [OF hit miss] show ?thesis by (simp add: it)
qed

text \<open>
  C1, within the integers that a Number counts through. For a seed from \<open>-2^53\<close>
  and an integer \<open>p\<close> from the seed up to \<open>2^53\<close> with
  \<open>sha1(decimal p + challengeId) = targetDigest\<close>, the search of
  \<open>convertCaptchaText\<close> returns, and what it returns is the least such integer: it
  lies between the seed and \<open>p\<close>, it matches, and nothing from the seed up to it does.
\<close>

theorem puzzle_returns_least:
  assumes "- 9007199254740992 \<le> seed" and "seed \<le> p" and "p \<le> 9007199254740992"
    and "sha1_hex (decimal p @ challengeId) = targetDigest"
  shows "\<exists>q. solveHashPuzzle (Num seed) (Some targetDigest) challengeId = Some (Num q)
           \<and> seed \<le> q \<and> q \<le> p
           \<and> sha1_hex (decimal q @ challengeId) = targetDigest
           \<and> (\<forall>r. seed \<le> r \<and> r < q \<longrightarrow> sha1_hex (decimal r @ challengeId) \<noteq> targetDigest)"
proof -
  have it: "(jsIncrement ^^ n) (Num seed) = Num (seed + int n)"
    and str: "toString (Num (seed + int n)) = decimal (seed + int n)"
    if "seed + int n \<le> p" for n
    using that assms(1,3) jsIncrement_funpow [of seed n]
    by (simp_all add: min_def toString_decimal)
  from assms(2) obtain n0 where p: "p = seed + int n0"
    by (auto simp: zle_iff_zadd)
  have "Some (sha1_hex (toString ((jsIncrement ^^ n0) (Num seed)) @ challengeId))
          = Some targetDigest"
    using it [of n0] str [of n0] assms(4) by (simp add: p)
  from first_match [OF this] obtain k where
    kle: "k \<le> n0"
    and hit: "Some (sha1_hex (toString ((jsIncrement ^^ k) (Num seed)) @ challengeId))
                = Some targetDigest"
    and miss: "\<And>m. m < k \<Longrightarrow>
                Some (sha1_hex (toString ((jsIncrement ^^ m) (Num seed)) @ challengeId))
                  \<noteq> Some targetDigest"
    and res: "solveHashPuzzle (Num seed) (Some targetDigest) challengeId
                = Some ((jsIncrement ^^ k) (Num seed))"
    by blast
  have le: "seed + int k \<le> p" using kle p by linarith
  have below: "sha1_hex (decimal r @ challengeId) \<noteq> targetDigest"
    if "seed \<le> r" "r < seed + int k" for r
  proof -
    from that(1) obtain m where r: "r = seed + int m"
      by (auto simp: zle_iff_zadd)
    with that(2) have m: "m < k" by simp
    with le have "seed + int m \<le> p" by linarith
    from miss [OF m] it [OF this] str [OF this] show ?thesis by (simp add: r)
  qed
  from hit have "sha1_hex (decimal (seed + int k) @ challengeId) = targetDigest"
    by (simp add: it [OF le] str [OF le])
  with res le below show ?thesis by (auto simp: it [OF le])
qed

text \<open>
  The scenario of the specification: seed 100, challenge \<open>abc\<close>, target
  \<open>SHA1("103abc")\<close>; the search returns 103.
\<close>

theorem puzzle_returns_least_witness:
  "- 9007199254740992 \<le> (100::int) \<and> (100::int) \<le> 103 \<and> (103::int) \<le> 9007199254740992
   \<and> sha1_hex (decimal 103 @ ''abc'') = sha1_hex ''103abc''
   \<and> solveHashPuzzle (Num 100) (Some (sha1_hex ''103abc'')) ''abc'' = Some (Num 103)"
proof -
  have lo: "- 9007199254740992 \<le> (100::int)" and le: "(100::int) \<le> 103"
    and hi: "(103::int) \<le> 9007199254740992" by simp_all
  have hit: "sha1_hex (decimal 103 @ ''abc'') = sha1_hex ''103abc''"
    by (simp add: decimal_103)
  from puzzle_returns_least [OF lo le hi hit] obtain q where
    q: "solveHashPuzzle (Num 100) (Some (sha1_hex ''103abc'')) ''abc'' = Some (Num q)"
      "100 \<le> q" "q \<le> 103" "sha1_hex (decimal q @ ''abc'') = sha1_hex ''103abc''"
    by blast
  from q(2,3) have "q = 100 \<or> q = 101 \<or> q = 102 \<or> q = 103" by arith
  moreover have "q \<noteq> 100" using q(4) by (auto simp: decimal_100 sha1_100abc sha1_103abc)
  moreover have "q \<noteq> 101" using q(4) by (auto simp: decimal_101 sha1_101abc sha1_103abc)
  moreover have "q \<noteq> 102" using q(4) by (auto simp: decimal_102 sha1_102abc sha1_103abc)
  ultimately have "q = 103" by blast
  with q(1) lo le hi hit show ?thesis by simp
qed

text \<open>
  Beyond \<open>2^53\<close> this fails. \<open>2^53 + 1\<close> is an integer from the seed \<open>2^53\<close>
  upwards whose decimal string with \<open>abc\<close> has the target digest, but it is no
  double: \<open>currentPos++\<close> leaves \<open>2^53\<close> as it is, and the search never returns.
\<close>

theorem puzzle_returns_least_counterexample:
  "(9007199254740992::int) \<le> 9007199254740993
   \<and> sha1_hex (decimal 9007199254740993 @ ''abc'') = sha1_hex ''9007199254740993abc''
   \<and> jsIncrement (Num 9007199254740992) = Num 9007199254740992
   \<and> solveHashPuzzle (Num 9007199254740992) (Some (sha1_hex ''9007199254740993abc'')) ''abc''
       = None"
proof -
  have "Some (sha1_hex (toString (Num 9007199254740992) @ ''abc''))
          \<noteq> Some (sha1_hex ''9007199254740993abc'')"
    by (simp add: toString_decimal decimal_limit sha1_limit_abc sha1_beyond_abc)
  with jsIncrement_limit
  have "solveHashPuzzle (Num 9007199254740992) (Some (sha1_hex ''9007199254740993abc'')) ''abc''
          = None"
    by (rule solve_stuck)
  then show ?thesis by (simp add: decimal_beyond jsIncrement_limit)
qed

text \<open>
  C3, as the code has it. The loop has no iteration ceiling and no failure exit. The
  values \<open>currentPos\<close> takes are the seed and what \<open>currentPos++\<close> makes of it time
  after time: the loop never returns exactly when none of them matches, and when it
  returns, it returns the first of them that matches. From a seed between \<open>-2^53\<close>
  and \<open>2^53\<close> these values are the integers from the seed up to \<open>2^53\<close>, where the
  counter stays.
\<close>

theorem puzzle_search_unbounded:
  "((solveHashPuzzle x targetHash vcid = None)
      = (\<forall>n. Some (sha1_hex (toString ((jsIncrement ^^ n) x) @ vcid)) \<noteq> targetHash))
   \<and> (\<forall>y. solveHashPuzzle x targetHash vcid = Some y \<longrightarrow>
         (\<exists>n. y = (jsIncrement ^^ n) x
            \<and> Some (sha1_hex (toString y @ vcid)) = targetHash
            \<and> (\<forall>m < n. Some (sha1_hex (toString ((jsIncrement ^^ m) x) @ vcid)) \<noteq> targetHash)))
   \<and> (- 9007199254740992 \<le> seed \<and> seed \<le> 9007199254740992 \<longrightarrow>
         (jsIncrement ^^ k) (Num seed) = Num (min (seed + int k) 9007199254740992))"
proof (intro conjI allI impI)
  show "(solveHashPuzzle x targetHash vcid = None)
      = (\<forall>n. Some (sha1_hex (toString ((jsIncrement ^^ n) x) @ vcid)) \<noteq> targetHash)"
  proof
    assume none: "solveHashPuzzle x targetHash vcid = None"
    show "\<forall>n. Some (sha1_hex (toString ((jsIncrement ^^ n) x) @ vcid)) \<noteq> targetHash"
    proof (intro allI notI)
      fix n assume "Some (sha1_hex (toString ((jsIncrement ^^ n) x) @ vcid)) = targetHash"
      from first_match [OF this] none show False by auto
    qed
  next
    assume nomatch: "\<forall>n. Some (sha1_hex (toString ((jsIncrement ^^ n) x) @ vcid)) \<noteq> targetHash"
    show "solveHashPuzzle x targetHash vcid = None"
    proof (cases "solveHashPuzzle x targetHash vcid")
      case None
      then show ?thesis .
    next
      case (Some y)
      from solve_sound [OF this] nomatch show ?thesis by blast
    qed
  qed
next
  fix y assume res: "solveHashPuzzle x targetHash vcid = Some y"
  from solve_sound [OF res] obtain n where
    "Some (sha1_hex (toString ((jsIncrement ^^ n) x) @ vcid)) = targetHash" by blast
  from first_match [OF this] obtain k where
    "Some (sha1_hex (toString ((jsIncrement ^^ k) x) @ vcid)) = targetHash"
    "\<forall>m < k. Some (sha1_hex (toString ((jsIncrement ^^ m) x) @ vcid)) \<noteq> targetHash"
    "solveHashPuzzle x targetHash vcid = Some ((jsIncrement ^^ k) x)"
    by blast
  with res show "\<exists>n. y = (jsIncrement ^^ n) x
            \<and> Some (sha1_hex (toString y @ vcid)) = targetHash
            \<and> (\<forall>m < n. Some (sha1_hex (toString ((jsIncrement ^^ m) x) @ vcid)) \<noteq> targetHash)"
    by auto
next
  assume "- 9007199254740992 \<le> seed \<and> seed \<le> 9007199254740992"
  then show "(jsIncrement ^^ k) (Num seed) = Num (min (seed + int k) 9007199254740992)"
    by (simp add: jsIncrement_funpow)
qed

theorem puzzle_search_unbounded_witness:
  "solveHashPuzzle (Num 103) (Some (sha1_hex ''103abc'')) ''abc'' = Some (Num 103)
   \<and> (jsIncrement ^^ 3) (Num 100) = Num 103
   \<and> (jsIncrement ^^ 3) (Num 9007199254740990) = Num 9007199254740992"
proof -
  note inst = puzzle_search_unbounded
    [of "Num 103" "Some (sha1_hex ''103abc'')" "''abc''" 100 3]
  have "Some (sha1_hex (toString ((jsIncrement ^^ 0) (Num 103)) @ ''abc''))
          = Some (sha1_hex ''103abc'')"
    by (simp add: toString_decimal decimal_103)
  with inst have "solveHashPuzzle (Num 103) (Some (sha1_hex ''103abc'')) ''abc'' \<noteq> None"
    by blast
  then obtain y where y: "solveHashPuzzle (Num 103) (Some (sha1_hex ''103abc'')) ''abc'' = Some y"
    by blast
  with inst obtain n where
    n: "y = (jsIncrement ^^ n) (Num 103)"
       "\<forall>m < n. Some (sha1_hex (toString ((jsIncrement ^^ m) (Num 103)) @ ''abc''))
                  \<noteq> Some (sha1_hex ''103abc'')"
    by blast
  have "n = 0"
  proof (rule ccontr)
    assume "n \<noteq> 0"
    then have "0 < n" by simp
    with n(2) have "Some (sha1_hex (toString ((jsIncrement ^^ 0) (Num 103)) @ ''abc''))
                  \<noteq> Some (sha1_hex ''103abc'')" by blast
    then show False by (simp add: toString_decimal decimal_103)
  qed
  with n(1) y have first: "solveHashPuzzle (Num 103) (Some (sha1_hex ''103abc'')) ''abc'' = Some (Num 103)"
    by simp
  from inst have "(jsIncrement ^^ 3) (Num 100) = Num 103" by simp
  moreover from puzzle_search_unbounded
    [of "Num 103" "Some (sha1_hex ''103abc'')" "''abc''" 9007199254740990 3]
  have "(jsIncrement ^^ 3) (Num 9007199254740990) = Num 9007199254740992" by simp
  ultimately show ?thesis using first by simp
qed

text \<open>
  An empty target digest is never the 40 characters a SHA-1 digest has: from seed 100
  the loop runs forever, and so does \<open>convertCaptchaText\<close>.
\<close>

theorem puzzle_search_terminates_counterexample:
  "solveHashPuzzle (Num 100) (Some []) ''abc'' = None
   \<and> convertCaptchaText ''k7f2'' (Num 100) (Some []) ''abc'' = None"
proof -
  have "solveHashPuzzle (Num 100) (Some []) ''abc'' = None"
  proof (cases "solveHashPuzzle (Num 100) (Some []) ''abc''")
    case None
    then show ?thesis .
  next
    case (Some q)
    from solve_sound [OF this] have "length (sha1_hex (toString q @ ''abc'')) = 0" by auto
    then show ?thesis by (simp add: sha1_hex_length)
  qed
  then show ?thesis by (simp add: convertCaptchaText_def)
qed

section \<open>Case restoration\<close>

lemma caseLoop_map:
  "caseLoop text B i result =
     map (\<lambda>k. if 0 \<le> int (length B) - (int (length text) - int k)
                   \<and> int (length B) - (int (length text) - int k) < int (length B)
                   \<and> B ! nat (int (length B) - (int (length text) - int k)) = CHR ''1''
                then toUpperCase (text ! k) else toLowerCase (text ! k)) [0..<i] @ result"
  by (induction i arbitrary: result) (simp_all add: Let_def)

lemma applyCaseConversion_length:
  "length (applyCaseConversion text p) = length text"
  by (simp add: applyCaseConversion_def caseLoop_map)

lemma applyCaseConversion_nth_k:
  assumes "k < length text"
  shows "applyCaseConversion text p ! k =
     (if 0 \<le> int (length (binaryPattern p)) - (int (length text) - int k)
         \<and> int (length (binaryPattern p)) - (int (length text) - int k) < int (length (binaryPattern p))
         \<and> binaryPattern p ! nat (int (length (binaryPattern p)) - (int (length text) - int k)) = CHR ''1''
      then toUpperCase (text ! k) else toLowerCase (text ! k))"
  using assms by (simp add: applyCaseConversion_def caseLoop_map)

lemma applyCaseConversion_nth:
  assumes "1 \<le> i" and "i \<le> length text"
  shows "applyCaseConversion text p ! (length text - i) =
     (if i \<le> length (binaryPattern p)
         \<and> binaryPattern p ! (length (binaryPattern p) - i) = CHR ''1''
      then toUpperCase (text ! (length text - i)) else toLowerCase (text ! (length text - i)))"
proof -
  let ?m = "length (binaryPattern p)"
  have k: "length text - i < length text" using assms by arith
  have idx: "int ?m - (int (length text) - int (length text - i)) = int ?m - int i"
    using assms by (simp add: of_nat_diff)
  have in_range: "(0 \<le> int ?m - int i \<and> int ?m - int i < int ?m) = (i \<le> ?m)"
    using assms by auto
  have pos: "nat (int ?m - int i) = ?m - i"
    by simp
  show ?thesis
    unfolding applyCaseConversion_nth_k [OF k] idx
    using in_range assms by (simp add: pos)
qed

lemma caseModifier_nonneg: "0 \<le> p \<Longrightarrow> caseModifier (Num p) = Num (p mod 65533 + 1)"
  by (cases "p = 0") (simp_all add: caseModifier_def js_rem_def)

lemma binaryPattern_nonneg:
  assumes "0 \<le> p"
  shows "binaryPattern (Num p) = natToString 2 (nat (p mod 65533 + 1))"
proof -
  have "0 \<le> p mod 65533" "p mod 65533 < 65533" by simp_all
  then have "(p mod 65533 + 1) mod 4294967296 = p mod 65533 + 1" by simp
  then show ?thesis
    using assms by (simp add: binaryPattern_def caseModifier_nonneg toUint32_def)
qed

text \<open>
  C2, for ASCII text and a solved integer that is not negative. The case modifier is
  \<open>(solvedInteger mod 65533) + 1\<close> and the pattern its binary digits; the result has
  the length of \<open>rawText\<close>, and its character at reverse position \<open>i\<close> (1-based from
  the end) is the upper-cased character of \<open>rawText\<close> there when the pattern has a
  digit at offset \<open>i\<close> from its end and that digit is 1, the lower-cased one when the
  digit is 0 or the pattern is exhausted.
\<close>

theorem case_restoration:
  assumes "0 \<le> solvedInteger" and "isAscii rawText"
  shows "caseModifier (Num solvedInteger) = Num (solvedInteger mod 65533 + 1)
    \<and> binaryPattern (Num solvedInteger) = natToString 2 (nat (solvedInteger mod 65533 + 1))
    \<and> length (applyCaseConversion rawText (Num solvedInteger)) = length rawText
    \<and> (\<forall>i. 1 \<le> i \<and> i \<le> length rawText \<longrightarrow>
          applyCaseConversion rawText (Num solvedInteger) ! (length rawText - i) =
            (if i \<le> length (binaryPattern (Num solvedInteger))
                \<and> binaryPattern (Num solvedInteger)
                     ! (length (binaryPattern (Num solvedInteger)) - i) = CHR ''1''
             then toUpperCase (rawText ! (length rawText - i))
             else toLowerCase (rawText ! (length rawText - i))))"
  using assms(1)
  by (simp add: caseModifier_nonneg binaryPattern_nonneg [symmetric] applyCaseConversion_length
        applyCaseConversion_nth)

text \<open>
  The scenario of the specification: \<open>rawText = "k7f2"\<close>, the solved integer 4 so
  that the modifier is 5, in binary 101.
\<close>

lemma natToString_2_5: "natToString 2 5 = ''101''"
  by (simp add: natToString.simps digitChar_def)

theorem case_restoration_witness:
  "(0::int) \<le> 4 \<and> isAscii ''k7f2'' \<and> binaryPattern (Num 4) = ''101''
   \<and> length (applyCaseConversion ''k7f2'' (Num 4)) = 4
   \<and> applyCaseConversion ''k7f2'' (Num 4) ! 3 = toUpperCase CHR ''2''
   \<and> applyCaseConversion ''k7f2'' (Num 4) ! 2 = toLowerCase CHR ''f''
   \<and> applyCaseConversion ''k7f2'' (Num 4) ! 1 = toUpperCase CHR ''7''
   \<and> applyCaseConversion ''k7f2'' (Num 4) ! 0 = toLowerCase CHR ''k''"
proof -
  have nn: "(0::int) \<le> 4" by simp
  have ascii: "isAscii ''k7f2''" by (simp add: isAscii_def)
  note inst = case_restoration [OF nn ascii]
  from inst have "binaryPattern (Num 4) = natToString 2 (nat (4 mod 65533 + 1))" by blast
  then have bits: "binaryPattern (Num 4) = ''101''" by (simp add: natToString_2_5)
  from inst have len: "length (applyCaseConversion ''k7f2'' (Num 4)) = 4" by simp
  from inst have nth: "\<forall>i. 1 \<le> i \<and> i \<le> length ''k7f2'' \<longrightarrow>
          applyCaseConversion ''k7f2'' (Num 4) ! (length ''k7f2'' - i) =
            (if i \<le> length (binaryPattern (Num 4))
                \<and> binaryPattern (Num 4) ! (length (binaryPattern (Num 4)) - i) = CHR ''1''
             then toUpperCase (''k7f2'' ! (length ''k7f2'' - i))
             else toLowerCase (''k7f2'' ! (length ''k7f2'' - i)))" by blast
  have c1: "applyCaseConversion ''k7f2'' (Num 4) ! 3 = toUpperCase CHR ''2''"
    using nth [rule_format, of 1] by (simp add: bits eval_nat_numeral)
  have c2: "applyCaseConversion ''k7f2'' (Num 4) ! 2 = toLowerCase CHR ''f''"
    using nth [rule_format, of 2] by (simp add: bits eval_nat_numeral)
  have c3: "applyCaseConversion ''k7f2'' (Num 4) ! 1 = toUpperCase CHR ''7''"
    using nth [rule_format, of 3] by (simp add: bits eval_nat_numeral)
  have c4: "applyCaseConversion ''k7f2'' (Num 4) ! 0 = toLowerCase CHR ''k''"
    using nth [rule_format, of 4] by (simp add: bits eval_nat_numeral)
  from nn ascii bits len c1 c2 c3 c4 show ?thesis by blast
qed

lemma applyCaseConversion_k7f2: "applyCaseConversion ''k7f2'' (Num 4) = ''k7f2''"
  by (simp add: applyCaseConversion_def binaryPattern_def caseModifier_def js_rem_def toUint32_def
      natToString.simps digitChar_def toUpperCase_def toLowerCase_def Let_def char_of_def bit_0)

lemma applyCaseConversion_abcd: "applyCaseConversion ''abcd'' (Num 4) = ''aBcD''"
  by (simp add: applyCaseConversion_def binaryPattern_def caseModifier_def js_rem_def toUint32_def
      natToString.simps digitChar_def toUpperCase_def toLowerCase_def Let_def char_of_def bit_0)

text \<open>
  What is no integer has the modifier \<open>NaN\<close>, which \<open>>>> 0\<close> reads as 0: every
  character is lower-cased.
\<close>

lemma applyCaseConversion_NaN: "applyCaseConversion ''aBcD'' NaN = ''abcd''"
  by (simp add: applyCaseConversion_def binaryPattern_def caseModifier_def toUint32_def
      natToString.simps digitChar_def toUpperCase_def toLowerCase_def Let_def char_of_def bit_0)

text \<open>
  For a negative solved integer \<open>%\<close> yields a remainder that is not positive and
  \<open>>>> 0\<close> reads the modifier as an unsigned 32-bit value. With \<open>-5\<close> the modifier
  is \<open>-4\<close>, its pattern 30 ones and two zeros, and \<open>abcd\<close> becomes \<open>ABcd\<close>; the
  binary digits of \<open>(-5 mod 65533) + 1 = 65529\<close> end in 1, which would upper-case
  the last character.
\<close>

lemma binaryPattern_minus5: "binaryPattern (Num (- 5)) = ''11111111111111111111111111111100''"
  by (simp add: binaryPattern_def caseModifier_def js_rem_def toUint32_def
      natToString.simps digitChar_def)

lemma natToString_2_65529: "natToString 2 65529 = ''1111111111111001''"
  by (simp add: natToString.simps digitChar_def)

theorem case_restoration_counterexample:
  "isAscii ''abcd'' \<and> caseModifier (Num (- 5)) = Num (- 4)
   \<and> caseModifier (Num (- 5)) \<noteq> Num ((- 5) mod 65533 + 1)
   \<and> last (natToString 2 (nat ((- 5) mod 65533 + 1))) = CHR ''1''
   \<and> last (applyCaseConversion ''abcd'' (Num (- 5))) \<noteq> toUpperCase (last ''abcd'')
   \<and> applyCaseConversion ''abcd'' (Num (- 5)) = ''ABcd''"
  by (simp add: natToString_2_65529 applyCaseConversion_def binaryPattern_minus5 isAscii_def
        caseModifier_def js_rem_def toUpperCase_def toLowerCase_def Let_def char_of_def bit_0)

section \<open>Reporting the outcome of the submission\<close>





text \<open>
  Before the login page has been scraped the method throws and sends nothing; a body
  that is a JSON object cannot be searched, and the method throws after the request.
\<close>

lemma submitLoginForm_unscraped:
  "submitLoginForm cfg p now (newLogin, file)
     = (Inl ''Cannot read properties of null'', [], newLogin, file)"
  by (simp add: submitLoginForm_def newLogin_def)

lemma submitLoginForm_json_body:
  "submitLoginForm sampleConfig
       (samplePortal \<lparr>status = 200, location = None, setCookie = None, data = JObject []\<rparr>)
       0 (scrapedLogin, None)
     = (Inl ''response.data.includes is not a function'', [PostLogin], scrapedLogin, None)"
  by (simp add: submitLoginForm_def axiosPost_def validateStatus_def samplePortal_def
        scrapedLogin_def truthy_def jsonIncludes_def)

section \<open>The cookie merge\<close>

lemma startsWith_cookieName:
  assumes "CHR ''='' \<in> set x"
  shows "startsWith x (cookieName x @ ''='')"
proof -
  let ?n = "takeWhile (\<lambda>c. c \<noteq> CHR ''='') x"
  let ?r = "dropWhile (\<lambda>c. c \<noteq> CHR ''='') x"
  from assms have "?r \<noteq> []" by (auto simp: dropWhile_eq_Nil_conv)
  moreover have "hd ?r = CHR ''=''"
    using hd_dropWhile [OF \<open>?r \<noteq> []\<close>] by simp
  ultimately obtain t where r: "?r = CHR ''='' # t" by (cases ?r) auto
  have "x = ?n @ ?r" by simp
  then have x: "x = (?n @ ''='') @ t" using r by simp
  have "take (length (?n @ ''='')) x = ?n @ ''=''"
    by (subst x) (simp only: append_eq_conv_conj [symmetric] take_all_iff append_take_drop_id
        take_append length_append, simp)
  then show ?thesis by (simp add: startsWith_def cookieName_def)
qed

lemma combineCookies_append:
  "combineCookies S h =
     filter (\<lambda>c. \<forall>n \<in> set h. \<not> startsWith c (cookieName n @ ''='')) S @ combineCookies [] h"
proof (induction h arbitrary: S)
  case Nil
  show ?case by simp
next
  case (Cons x h)
  show ?case
    by (simp add: Let_def Cons.IH [of "filter (\<lambda>c. \<not> startsWith c (cookieName x @ ''='')) S @ [x]"]
          Cons.IH [of "[x]"] conj_commute)
qed

lemma combineCookies_set: "set (combineCookies S h) \<subseteq> set S \<union> set h"
proof (induction h arbitrary: S)
  case Nil
  show ?case by simp
next
  case (Cons a h)
  let ?S = "filter (\<lambda>c. \<not> startsWith c (cookieName a @ ''='')) S @ [a]"
  have "set (combineCookies ?S h) \<subseteq> set ?S \<union> set h" by (rule Cons.IH)
  then show ?case by (auto simp: Let_def)
qed

lemma combineCookies_idem:
  assumes "\<forall>x \<in> set h. CHR ''='' \<in> set x"
  shows "combineCookies (combineCookies S h) h = combineCookies S h"
proof -
  let ?keep = "\<lambda>c. \<forall>n \<in> set h. \<not> startsWith c (cookieName n @ ''='')"
  have "\<not> ?keep c" if "c \<in> set (combineCookies [] h)" for c
  proof -
    from that combineCookies_set [of "[]" h] have "c \<in> set h" by auto
    with assms startsWith_cookieName [of c] show ?thesis by blast
  qed
  then have gone: "filter ?keep (combineCookies [] h) = []"
    by (auto simp: filter_empty_conv)
  have "combineCookies (combineCookies S h) h
          = filter ?keep (filter ?keep S @ combineCookies [] h) @ combineCookies [] h"
    by (subst combineCookies_append, subst (2) combineCookies_append) simp
  also have "\<dots> = filter ?keep S @ combineCookies [] h"
    by (simp add: gone)
  also have "\<dots> = combineCookies S h"
    by (rule combineCookies_append [symmetric])
  finally show ?thesis .
qed

lemma allCookies_has_eq: "\<forall>x \<in> set (allCookies hdr). CHR ''='' \<in> set x"
  by (auto simp: allCookies_def split: option.splits)

lemma allCookies_no_semicolon: "x \<in> set (allCookies hdr) \<Longrightarrow> x \<noteq> [] \<and> CHR '';'' \<notin> set x"
  by (auto simp: allCookies_def cookiePart_def split: option.splits dest: set_takeWhileD)

lemma splitCookies_nonempty: "splitCookies s \<noteq> []"
  by (induction s rule: splitCookies.induct) (auto split: list.splits)

lemma splitCookies_pieces: "p \<in> set (splitCookies s) \<Longrightarrow> splitCookies p = [p]"
proof (induction s arbitrary: p rule: splitCookies.induct)
  case 1
  then show ?case by simp
next
  case (2 c)
  then show ?case by simp
next
  case (3 c d cs)
  show ?case
  proof (cases "c = CHR '';'' \<and> d = CHR '' ''")
    case True
    with 3 show ?thesis by auto
  next
    case False
    obtain q qs where split: "splitCookies (d # cs) = q # qs"
      using splitCookies_nonempty [of "d # cs"] by (cases "splitCookies (d # cs)") auto
    from False split "3.prems" have "p = c # q \<or> p \<in> set qs" by auto
    then show ?thesis
    proof
      assume "p \<in> set qs"
      with split "3.IH"(2) [OF False] show ?thesis by simp
    next
      assume p: "p = c # q"
      have q: "splitCookies q = [q]" using split "3.IH"(2) [OF False, of q] by simp
      show ?thesis
      proof (cases q)
        case Nil
        with p show ?thesis by simp
      next
        case (Cons e es)
        have "\<not> (c = CHR '';'' \<and> e = CHR '' '')"
        proof
          assume ce: "c = CHR '';'' \<and> e = CHR '' ''"
          with False have "d \<noteq> e" by auto
          moreover have "d = e"
          proof (cases cs)
            case Nil
            with split Cons show ?thesis by simp
          next
            case (Cons f fs)
            with split \<open>q = e # es\<close> show ?thesis
              by (auto split: if_splits list.splits)
          qed
          ultimately show False by simp
        qed
        with p Cons q show ?thesis by simp
      qed
    qed
  qed
qed

lemma splitCookies_no_semicolon: "CHR '';'' \<notin> set x \<Longrightarrow> splitCookies x = [x]"
  by (induction x rule: splitCookies.induct) auto

lemma splitCookies_append_sep:
  "splitCookies x = [x] \<Longrightarrow> splitCookies (x @ ''; '' @ rest) = x # splitCookies rest"
proof (induction x rule: splitCookies.induct)
  case 1
  show ?case by simp
next
  case (2 c)
  show ?case by simp
next
  case (3 c d cs)
  have nosep: "\<not> (c = CHR '';'' \<and> d = CHR '' '')"
    using "3.prems" by auto
  obtain q qs where split: "splitCookies (d # cs) = q # qs"
    using splitCookies_nonempty [of "d # cs"] by (cases "splitCookies (d # cs)") auto
  with nosep "3.prems" have "splitCookies (d # cs) = [d # cs]"
    by (auto split: if_splits)
  from "3.IH"(2) [OF nosep this] nosep show ?case by simp
qed

lemma splitCookies_join:
  "xs \<noteq> [] \<Longrightarrow> \<forall>x \<in> set xs. splitCookies x = [x] \<Longrightarrow> splitCookies (joinCookies xs) = xs"
proof (induction xs rule: joinCookies.induct)
  case 1
  then show ?case by simp
next
  case (2 x)
  then show ?case by simp
next
  case (3 x y ys)
  then show ?case by (simp add: splitCookies_append_sep del: append.simps)
qed

lemma existingCookies_join:
  assumes "\<forall>x \<in> set xs. splitCookies x = [x] \<and> x \<noteq> []"
  shows "existingCookies (joinCookies xs) = xs"
proof (cases "xs = []")
  case True
  then show ?thesis by (simp add: existingCookies_def)
next
  case False
  with assms have "splitCookies (joinCookies xs) = xs" by (simp add: splitCookies_join)
  with assms show ?thesis by (simp add: existingCookies_def filter_id_conv)
qed

lemma mergedCookieArray_pieces:
  assumes "x \<in> set (mergedCookieArray cookies hdr)"
  shows "splitCookies x = [x] \<and> x \<noteq> []"
proof -
  from assms combineCookies_set [of "existingCookies cookies" "allCookies hdr"]
  have "x \<in> set (existingCookies cookies) \<or> x \<in> set (allCookies hdr)"
    by (auto simp: mergedCookieArray_def)
  then show ?thesis
  proof
    assume "x \<in> set (existingCookies cookies)"
    then show ?thesis by (auto simp: existingCookies_def splitCookies_pieces)
  next
    assume "x \<in> set (allCookies hdr)"
    from allCookies_no_semicolon [OF this] show ?thesis
      by (simp add: splitCookies_no_semicolon)
  qed
qed

lemma mergedCookieArray_idem:
  "mergedCookieArray (mergedCookies cookies hdr) hdr = mergedCookieArray cookies hdr"
proof -
  have "existingCookies (mergedCookies cookies hdr) = mergedCookieArray cookies hdr"
    unfolding mergedCookies_def
    by (rule existingCookies_join) (simp add: mergedCookieArray_pieces)
  then show ?thesis
    by (simp add: mergedCookieArray_def combineCookies_idem [OF allCookies_has_eq])
qed

text \<open>
  C7. Merging the \<open>Set-Cookie\<close> headers of a response into a cookie string, and
  merging the same headers into the result once more, gives the same cookie array and
  the same cookie string as the first merge; so does the merge on the arrays, and so
  does \<open>extractAndSaveCookies\<close> run twice on one response.
\<close>

theorem cookie_merge_idempotent:
  "mergedCookieArray (mergedCookies cookies hdr) hdr = mergedCookieArray cookies hdr
   \<and> mergedCookies (mergedCookies cookies hdr) hdr = mergedCookies cookies hdr
   \<and> combineCookies (combineCookies existing (allCookies hdr)) (allCookies hdr)
       = combineCookies existing (allCookies hdr)
   \<and> extractAndSaveCookies cfg now r (extractAndSaveCookies cfg now r st)
       = extractAndSaveCookies cfg now r st"
proof -
  have "extractAndSaveCookies cfg now r (extractAndSaveCookies cfg now r st)
       = extractAndSaveCookies cfg now r st"
    by (cases st) (simp add: extractAndSaveCookies_def Let_def)
  moreover have "mergedCookies (mergedCookies cookies hdr) hdr = mergedCookies cookies hdr"
    using mergedCookieArray_idem [of cookies hdr]
    by (simp add: mergedCookies_def)
  ultimately show ?thesis
    by (simp add: mergedCookieArray_idem combineCookies_idem [OF allCookies_has_eq])
qed

theorem cookie_merge_idempotent_witness:
  "mergedCookies ''_ga=1; sid=old'' (Some [''sid=new; path=/'', ''x=1'']) = ''_ga=1; sid=new; x=1''
   \<and> mergedCookies ''_ga=1; sid=new; x=1'' (Some [''sid=new; path=/'', ''x=1''])
       = ''_ga=1; sid=new; x=1''"
proof -
  have once: "mergedCookies ''_ga=1; sid=old'' (Some [''sid=new; path=/'', ''x=1''])
      = ''_ga=1; sid=new; x=1''"
    by (simp add: mergedCookies_def mergedCookieArray_def existingCookies_def allCookies_def
          cookiePart_def cookieName_def startsWith_def Let_def)
  from cookie_merge_idempotent [of "''_ga=1; sid=old''" "Some [''sid=new; path=/'', ''x=1'']"]
  have "mergedCookies (mergedCookies ''_ga=1; sid=old'' (Some [''sid=new; path=/'', ''x=1'']))
          (Some [''sid=new; path=/'', ''x=1''])
        = mergedCookies ''_ga=1; sid=old'' (Some [''sid=new; path=/'', ''x=1''])"
    by blast
  with once show ?thesis by simp
qed

section \<open>The session manager\<close>

lemma validateConfig_iff:
  "validateConfig cfg = (username cfg \<noteq> [] \<and> password cfg \<noteq> [] \<and> apiKey cfg \<noteq> [])"
  by (simp add: validateConfig_def)

text \<open>
  C5. An authentication attempt is a call of \<open>authenticateWithUMS\<close> that does not
  answer from the session held in memory: the refresh is forced, or
  \<open>hasValidSession\<close> is false, which is how \<open>fetchFreshTimetableData\<close> calls it.
  With the username, the password or the API key missing, the constructor of
  \<open>LPUAutomatedLogin\<close> throws, and the attempt returns \<open>null\<close> with the session
  cleared and without a request sent.
\<close>

theorem config_invalid_fails:
  assumes "username cfg = [] \<or> password cfg = [] \<or> apiKey cfg = []"
    and "forceRefresh \<or> \<not> hasValidSession s"
  shows "newLPUAutomatedLogin cfg = Inl ''Configuration validation failed''
       \<and> authenticateWithUMS forceRefresh cfg p tLogin tSave s
           = Some (None, [], clearSessionData s)"
  using assms
  by (auto simp: authenticateWithUMS_def newLPUAutomatedLogin_def validateConfig_iff
        hasValidSession_def)

theorem config_invalid_fails_witness:
  "password (sampleConfig\<lparr>password := []\<rparr>) = []
   \<and> authenticateWithUMS True (sampleConfig\<lparr>password := []\<rparr>) (samplePortal redirectWithError) 0 0
         \<lparr>sessionCookies = Some ''ASP.NET_SessionId=abc123'', sessionFile = Some (Parsed sampleRecord)\<rparr>
       = Some (None, [], \<lparr>sessionCookies = None, sessionFile = None\<rparr>)
   \<and> \<not> hasValidSession \<lparr>sessionCookies = None, sessionFile = Some (Parsed sampleRecord)\<rparr>
   \<and> authenticateWithUMS False (sampleConfig\<lparr>password := []\<rparr>) (samplePortal redirectWithError) 0 0
         \<lparr>sessionCookies = None, sessionFile = Some (Parsed sampleRecord)\<rparr>
       = Some (None, [], \<lparr>sessionCookies = None, sessionFile = None\<rparr>)"
proof -
  have h: "username (sampleConfig\<lparr>password := []\<rparr>) = [] \<or> password (sampleConfig\<lparr>password := []\<rparr>) = []
      \<or> apiKey (sampleConfig\<lparr>password := []\<rparr>) = []"
    by simp
  have forced: "True \<or> \<not> hasValidSession
      \<lparr>sessionCookies = Some ''ASP.NET_SessionId=abc123'', sessionFile = Some (Parsed sampleRecord)\<rparr>"
    by simp
  have none: "False \<or> \<not> hasValidSession
      \<lparr>sessionCookies = None, sessionFile = Some (Parsed sampleRecord)\<rparr>"
    by (simp add: hasValidSession_def truthy_def)
  show ?thesis
    using config_invalid_fails [OF h forced, of "samplePortal redirectWithError" 0 0]
      config_invalid_fails [OF h none, of "samplePortal redirectWithError" 0 0] none
    by (simp add: clearSessionData_def)
qed

text \<open>
  A call that finds a session in memory and is not told to refresh it answers from
  that session before the configuration is looked at; it is no attempt to authenticate.
\<close>

lemma authenticate_cached:
  "\<not> forceRefresh \<Longrightarrow> hasValidSession s \<Longrightarrow>
   authenticateWithUMS forceRefresh cfg p tLogin tSave s = Some (sessionCookies s, [], s)"
  by (simp add: authenticateWithUMS_def hasValidSession_def)

text \<open>
  C6. For a session record (cookies present, \<open>loginSuccess\<close> set) with a readable
  timestamp: when its age at load time exceeds 30 minutes, \<open>loadSessionData\<close> returns
  \<open>false\<close>, deletes the file and leaves no session in memory; within the 30 minutes it
  returns \<open>true\<close> and the cookies of the record are the session.
\<close>

theorem load_expires_after_ttl:
  assumes "sessionFile s = Some (Parsed d)" and "truthy (sdCookies d)" and "loginSuccess d"
    and "timestamp d = Some t"
  shows "(now - t > 30 * 60 * 1000 \<longrightarrow>
            loadSessionData now s = (False, s\<lparr>sessionCookies := None, sessionFile := None\<rparr>))
       \<and> (now - t \<le> 30 * 60 * 1000 \<longrightarrow>
            loadSessionData now s = (True, s\<lparr>sessionCookies := sdCookies d\<rparr>))"
  using assms by (simp add: loadSessionData_def clearSessionData_def)

theorem load_expires_after_ttl_witness:
  "loadSessionData 1800001 \<lparr>sessionCookies = None, sessionFile = Some (Parsed sampleRecord)\<rparr>
     = (False, \<lparr>sessionCookies = None, sessionFile = None\<rparr>)
   \<and> loadSessionData 1800000 \<lparr>sessionCookies = None, sessionFile = Some (Parsed sampleRecord)\<rparr>
     = (True, \<lparr>sessionCookies = Some ''ASP.NET_SessionId=abc123'',
               sessionFile = Some (Parsed sampleRecord)\<rparr>)"
proof -
  let ?s = "\<lparr>sessionCookies = None, sessionFile = Some (Parsed sampleRecord)\<rparr>"
  have f: "sessionFile ?s = Some (Parsed sampleRecord)" by simp
  have c: "truthy (sdCookies sampleRecord)" by (simp add: sampleRecord_def truthy_def)
  have l: "loginSuccess sampleRecord" by (simp add: sampleRecord_def)
  have t: "timestamp sampleRecord = Some 0" by (simp add: sampleRecord_def)
  from load_expires_after_ttl [OF f c l t, of 1800001] load_expires_after_ttl [OF f c l t, of 1800000]
  show ?thesis by (simp add: sampleRecord_def)
qed


text \<open>
  C8. A session with cookies is saved, and the file is loaded within 30 minutes by a
  manager that holds nothing in memory, or anything else: the load succeeds, and the
  manager is then exactly as the saving one was after the save, with the saved cookies
  in memory. The record read holds these cookies under the user name it had before the
  save or, without an earlier record, the configured one.
\<close>

theorem save_load_round_trip:
  assumes "truthy (sessionCookies s)" and "tLoad - tSave \<le> 30 * 60 * 1000"
  shows "loadSessionData tLoad (newAuthManager (sessionFile (saveSessionData cfg tSave s)))
           = (True, saveSessionData cfg tSave s)
       \<and> getSessionCookies
            (snd (loadSessionData tLoad (newAuthManager (sessionFile (saveSessionData cfg tSave s)))))
           = getSessionCookies s
       \<and> (\<forall>m. sessionFile m = sessionFile (saveSessionData cfg tSave s) \<longrightarrow>
              loadSessionData tLoad m = (True, saveSessionData cfg tSave s))
       \<and> (\<exists>d. sessionFile
                 (snd (loadSessionData tLoad
                         (newAuthManager (sessionFile (saveSessionData cfg tSave s)))))
                = Some (Parsed d)
              \<and> sdCookies d = sessionCookies s
              \<and> sdUsername d = (case sessionFile s of
                                   Some (Parsed d0) \<Rightarrow> sdUsername d0
                                 | _ \<Rightarrow> username cfg))"
proof -
  have any: "loadSessionData tLoad m = (True, saveSessionData cfg tSave s)"
    if "sessionFile m = sessionFile (saveSessionData cfg tSave s)" for m
    using that assms
    by (cases m; cases s)
       (auto simp: loadSessionData_def saveSessionData_def Let_def
             split: option.splits sessionFileContent.splits)
  have fresh: "loadSessionData tLoad (newAuthManager (sessionFile (saveSessionData cfg tSave s)))
           = (True, saveSessionData cfg tSave s)"
    by (rule any) (simp add: newAuthManager_def)
  have stored: "\<exists>d. sessionFile (saveSessionData cfg tSave s) = Some (Parsed d)
              \<and> sdCookies d = sessionCookies s
              \<and> sdUsername d = (case sessionFile s of
                                   Some (Parsed d0) \<Rightarrow> sdUsername d0
                                 | _ \<Rightarrow> username cfg)"
    by (auto simp: saveSessionData_def Let_def split: option.splits sessionFileContent.splits)
  from any fresh stored show ?thesis
    by (simp add: getSessionCookies_def saveSessionData_def Let_def)
qed

theorem save_load_round_trip_witness:
  "truthy (Some ''a=1; b=2'')
   \<and> saveSessionData sampleConfig 1000 \<lparr>sessionCookies = Some ''a=1; b=2'', sessionFile = None\<rparr>
     = \<lparr>sessionCookies = Some ''a=1; b=2'',
        sessionFile = Some (Parsed \<lparr>timestamp = Some 1000, sdUsername = ''12345678'',
          sdCookies = Some ''a=1; b=2'', cookieArray = [''a=1; b=2''], loginSuccess = True\<rparr>)\<rparr>
   \<and> loadSessionData 5000
       (newAuthManager (Some (Parsed \<lparr>timestamp = Some 1000, sdUsername = ''12345678'',
          sdCookies = Some ''a=1; b=2'', cookieArray = [''a=1; b=2''], loginSuccess = True\<rparr>)))
     = (True, \<lparr>sessionCookies = Some ''a=1; b=2'',
              sessionFile = Some (Parsed \<lparr>timestamp = Some 1000, sdUsername = ''12345678'',
                sdCookies = Some ''a=1; b=2'', cookieArray = [''a=1; b=2''], loginSuccess = True\<rparr>)\<rparr>)"
proof -
  let ?s = "\<lparr>sessionCookies = Some ''a=1; b=2'', sessionFile = None\<rparr>"
  have c: "truthy (sessionCookies ?s)" by (simp add: truthy_def)
  have t: "(5000::int) - 1000 \<le> 30 * 60 * 1000" by simp
  have saved: "saveSessionData sampleConfig 1000 ?s
     = \<lparr>sessionCookies = Some ''a=1; b=2'',
        sessionFile = Some (Parsed \<lparr>timestamp = Some 1000, sdUsername = ''12345678'',
          sdCookies = Some ''a=1; b=2'', cookieArray = [''a=1; b=2''], loginSuccess = True\<rparr>)\<rparr>"
    by (simp add: saveSessionData_def sampleConfig_def truthy_def)
  from save_load_round_trip [OF c t, of sampleConfig] c
  show ?thesis by (simp add: saved)
qed

lemma saveSessionData_cookies [simp]:
  "sessionCookies (saveSessionData cfg now s) = sessionCookies s"
  by (simp add: saveSessionData_def Let_def)

lemma truthy_not_None: "truthy v \<Longrightarrow> v \<noteq> None"
  by (cases v) (simp_all add: truthy_def)

lemma authenticate_cases:
  assumes "authenticateWithUMS forceRefresh cfg p tLogin tSave s = Some (r, calls, s')"
  shows "(truthy r \<and> sessionCookies s' = r)
       \<or> (r = None \<and> sessionCookies s' = None \<and> sessionFile s' = None)"
  using assms
  by (auto simp: authenticateWithUMS_def newLPUAutomatedLogin_def clearSessionData_def Let_def
           split: if_splits option.splits sum.splits prod.splits)

text \<open>
  C9. A call of \<open>authenticateWithUMS\<close> that returns \<open>null\<close> leaves no cookies in
  memory and no session file, so that \<open>getSessionCookies\<close> is \<open>null\<close> and
  \<open>hasValidSession\<close> is false afterwards. It returns \<open>null\<close> exactly when it does
  not answer from the cached session and the configuration is invalid, or the run
  throws, or the run ends without success or without cookies.
\<close>

theorem failed_authentication_clears:
  assumes "authenticateWithUMS forceRefresh cfg p tLogin tSave s = Some (r, calls, s')"
  shows "(r = None \<longrightarrow>
            sessionCookies s' = None \<and> sessionFile s' = None
            \<and> getSessionCookies s' = None \<and> \<not> hasValidSession s')
       \<and> ((r = None) =
            ((forceRefresh \<or> \<not> truthy (sessionCookies s))
             \<and> (\<not> validateConfig cfg
                \<or> (\<exists>e c f. runAutomation cfg p newLogin tLogin (sessionFile s) = Some (Inl e, c, f))
                \<or> (\<exists>res c f. runAutomation cfg p newLogin tLogin (sessionFile s) = Some (Inr res, c, f)
                      \<and> \<not> (success res \<and> truthy (resultCookies res))))))"
proof
  show "r = None \<longrightarrow>
          sessionCookies s' = None \<and> sessionFile s' = None
          \<and> getSessionCookies s' = None \<and> \<not> hasValidSession s'"
    using authenticate_cases [OF assms]
    by (auto simp: getSessionCookies_def hasValidSession_def truthy_def)
next
  show "(r = None) =
          ((forceRefresh \<or> \<not> truthy (sessionCookies s))
           \<and> (\<not> validateConfig cfg
              \<or> (\<exists>e c f. runAutomation cfg p newLogin tLogin (sessionFile s) = Some (Inl e, c, f))
              \<or> (\<exists>res c f. runAutomation cfg p newLogin tLogin (sessionFile s) = Some (Inr res, c, f)
                    \<and> \<not> (success res \<and> truthy (resultCookies res)))))"
    using assms
    by (auto simp: authenticateWithUMS_def newLPUAutomatedLogin_def Let_def dest: truthy_not_None
             split: if_splits option.splits sum.splits prod.splits)
qed

text \<open>
  A whole run on sample answers: the search finds 103, the CAPTCHA \<open>k7f2\<close> becomes
  \<open>K7f2\<close>, all six requests are sent, and the portal rejects the form.
\<close>

lemma natToString_2_104: "natToString 2 104 = ''1101000''"
  by (simp add: natToString.simps digitChar_def)

lemma convert_sample:
  "convertCaptchaText ''k7f2'' (Num 100) (Some (sha1_hex ''103abc'')) ''abc'' = Some ''K7f2''"
  by (simp add: convertCaptchaText_def solve_sample applyCaseConversion_def binaryPattern_def
        caseModifier_def js_rem_def toUint32_def natToString_2_104 toUpperCase_def
        toLowerCase_def Let_def char_of_def bit_0)

lemma runAutomation_sample:
  "runAutomation sampleConfig (samplePortal r) newLogin now file =
     (case submitLoginForm sampleConfig (samplePortal r) now (scrapedLogin, file) of
        (result, calls6, lg', file') \<Rightarrow>
          Some (result,
                [GetLoginPage, GetCaptchaParams, GetCaptchaImage, GetBalance, SolveImage] @ calls6,
                file'))"
  by (simp add: runAutomation_def scrapeLoginPageData_def getCaptchaParameters_def
        getCaptchaImage_def solveCaptcha_def samplePortal_def sampleConfig_def newLogin_def
        scrapedLogin_def convert_sample)

lemma authenticate_rejected_sample:
  "authenticateWithUMS True sampleConfig (samplePortal movedWithError) 0 0
       \<lparr>sessionCookies = Some ''ASP.NET_SessionId=abc123'', sessionFile = Some (Parsed sampleRecord)\<rparr>
     = Some (None, [GetLoginPage, GetCaptchaParams, GetCaptchaImage, GetBalance, SolveImage, PostLogin],
             \<lparr>sessionCookies = None, sessionFile = None\<rparr>)"
  by (simp add: authenticateWithUMS_def newLPUAutomatedLogin_def runAutomation_sample
        submitLoginForm_def axiosPost_def validateStatus_def clearSessionData_def
        validateConfig_iff)
     (simp add: samplePortal_def sampleConfig_def movedWithError_def scrapedLogin_def truthy_def
        submitLoginForm_def axiosPost_def validateStatus_def jsonIncludes_def startsWith_def
        clearSessionData_def)

text \<open>The same run against a portal that answers with a redirect is a login.\<close>

lemma authenticate_accepted_sample:
  "authenticateWithUMS True sampleConfig (samplePortal redirectWithError) 1000 2000
       \<lparr>sessionCookies = None, sessionFile = None\<rparr>
     = Some (Some ''ASP.NET_SessionId=abc123'',
             [GetLoginPage, GetCaptchaParams, GetCaptchaImage, GetBalance, SolveImage, PostLogin],
             \<lparr>sessionCookies = Some ''ASP.NET_SessionId=abc123'',
                sessionFile = Some (Parsed \<lparr>timestamp = Some 2000, sdUsername = ''12345678'',
                  sdCookies = Some ''ASP.NET_SessionId=abc123'',
                  cookieArray = [''ASP.NET_SessionId=abc123''], loginSuccess = True\<rparr>)\<rparr>)"
  by (simp add: authenticateWithUMS_def newLPUAutomatedLogin_def runAutomation_sample
        submitLoginForm_def axiosPost_def validateStatus_def validateConfig_iff)
     (simp add: samplePortal_def sampleConfig_def redirectWithError_def scrapedLogin_def truthy_def
        submitLoginForm_def axiosPost_def validateStatus_def extractAndSaveCookies_def mergedCookieArray_def existingCookies_def allCookies_def
        cookiePart_def cookieName_def startsWith_def saveSessionData_def Let_def)

theorem failed_authentication_clears_witness:
  "authenticateWithUMS True sampleConfig (samplePortal movedWithError) 0 0
       \<lparr>sessionCookies = Some ''ASP.NET_SessionId=abc123'', sessionFile = Some (Parsed sampleRecord)\<rparr>
     = Some (None, [GetLoginPage, GetCaptchaParams, GetCaptchaImage, GetBalance, SolveImage, PostLogin],
             \<lparr>sessionCookies = None, sessionFile = None\<rparr>)
   \<and> getSessionCookies \<lparr>sessionCookies = None, sessionFile = None\<rparr> = None
   \<and> \<not> hasValidSession \<lparr>sessionCookies = None, sessionFile = None\<rparr>"
  using failed_authentication_clears [OF authenticate_rejected_sample] authenticate_rejected_sample
  by simp

lemma callMethod_cookies_nonempty:
  assumes "sessionCookies s \<noteq> Some []" and "callMethod c s = Some s'"
  shows "sessionCookies s' \<noteq> Some []"
proof (cases c)
  case (SaveSessionData cfg now)
  with assms show ?thesis by auto
next
  case (LoadSessionData now)
  with assms show ?thesis
    by (auto simp: loadSessionData_def clearSessionData_def truthy_def
             split: option.splits sessionFileContent.splits if_splits)
next
  case ClearSessionData
  with assms show ?thesis by (auto simp: clearSessionData_def)
next
  case (AuthenticateWithUMS forceRefresh cfg p tLogin tSave)
  with assms(2) obtain r calls
    where "authenticateWithUMS forceRefresh cfg p tLogin tSave s = Some (r, calls, s')"
    by (auto split: option.splits)
  from authenticate_cases [OF this] show ?thesis
    by (auto simp: truthy_def)
qed

lemma callMethods_cookies_nonempty:
  "sessionCookies s \<noteq> Some [] \<Longrightarrow> callMethods cs s = Some s' \<Longrightarrow> sessionCookies s' \<noteq> Some []"
proof (induction cs arbitrary: s)
  case Nil
  then show ?case by simp
next
  case (Cons c cs)
  from Cons.prems(2) obtain s1 where c: "callMethod c s = Some s1"
    and cs: "callMethods cs s1 = Some s'"
    by (auto split: option.splits)
  from callMethod_cookies_nonempty [OF Cons.prems(1) c] cs show ?case
    by (rule Cons.IH)
qed

text \<open>
  C10. In every state that calls of its methods lead a new manager to,
  \<open>hasValidSession\<close> is true exactly when
  \<open>getSessionCookies\<close> is not \<open>null\<close>. Both read the cookies in memory only: the
  session file, and with it the timestamp, has no part in the answer. The 30 minutes
  are checked by \<open>loadSessionData\<close> alone, which refuses a record older than that.
\<close>

theorem valid_session_iff_cookies:
  assumes "callMethods cs (newAuthManager file) = Some s"
  shows "hasValidSession s = (getSessionCookies s \<noteq> None)
       \<and> (\<forall>file. hasValidSession (s\<lparr>sessionFile := file\<rparr>) = hasValidSession s
                 \<and> getSessionCookies (s\<lparr>sessionFile := file\<rparr>) = getSessionCookies s)
       \<and> (\<forall>now d t. sessionFile s = Some (Parsed d) \<and> truthy (sdCookies d) \<and> loginSuccess d
                 \<and> timestamp d = Some t \<and> now - t > 30 * 60 * 1000
              \<longrightarrow> fst (loadSessionData now s) = False)"
proof -
  have "sessionCookies (newAuthManager file) \<noteq> Some []"
    by (simp add: newAuthManager_def)
  from callMethods_cookies_nonempty [OF this assms]
  have "hasValidSession s = (getSessionCookies s \<noteq> None)"
    by (cases "sessionCookies s") (simp_all add: hasValidSession_def getSessionCookies_def truthy_def)
  then show ?thesis
    by (simp add: hasValidSession_def getSessionCookies_def loadSessionData_def)
qed

text \<open>
  A session loaded at time 0 from a record stamped 0 is still reported valid, while
  loading the same record 30 minutes and a millisecond later is refused.
\<close>

theorem valid_session_iff_cookies_witness:
  "callMethods [LoadSessionData 0] (newAuthManager (Some (Parsed sampleRecord)))
     = Some \<lparr>sessionCookies = Some ''ASP.NET_SessionId=abc123'',
              sessionFile = Some (Parsed sampleRecord)\<rparr>
   \<and> hasValidSession \<lparr>sessionCookies = Some ''ASP.NET_SessionId=abc123'',
                        sessionFile = Some (Parsed sampleRecord)\<rparr>
   \<and> getSessionCookies \<lparr>sessionCookies = Some ''ASP.NET_SessionId=abc123'',
                        sessionFile = Some (Parsed sampleRecord)\<rparr> \<noteq> None
   \<and> fst (loadSessionData 1800001 \<lparr>sessionCookies = Some ''ASP.NET_SessionId=abc123'',
                        sessionFile = Some (Parsed sampleRecord)\<rparr>) = False"
proof -
  let ?s1 = "\<lparr>sessionCookies = Some ''ASP.NET_SessionId=abc123'',
              sessionFile = Some (Parsed sampleRecord)\<rparr>"
  have r: "callMethods [LoadSessionData 0] (newAuthManager (Some (Parsed sampleRecord))) = Some ?s1"
    by (simp add: newAuthManager_def loadSessionData_def sampleRecord_def truthy_def)
  note inst = valid_session_iff_cookies [OF r]
  have v: "hasValidSession ?s1" by (simp add: hasValidSession_def truthy_def)
  from inst v have g: "getSessionCookies ?s1 \<noteq> None" by blast
  from inst have "\<forall>now d t. sessionFile ?s1 = Some (Parsed d) \<and> truthy (sdCookies d) \<and> loginSuccess d
                 \<and> timestamp d = Some t \<and> now - t > 30 * 60 * 1000
              \<longrightarrow> fst (loadSessionData now ?s1) = False" by blast
  from this [rule_format, of sampleRecord 0 1800001]
  have e: "fst (loadSessionData 1800001 ?s1) = False"
    by (simp add: sampleRecord_def truthy_def)
  from r v g e show ?thesis by blast
qed

end
